theory Spec2Isabelle
  imports Complex_Main "HOL-Library.Multiset"
begin

section \<open>JavaScript numbers\<close>

text \<open>
  The script (static/script.js) works on JavaScript Number values read from strings by
  \<^verbatim>\<open>parseFloat\<close> and \<^verbatim>\<open>parseInt\<close>. A Number is modelled as not-a-number, one of
  the two infinities, or a finite value kept as the exact rational that the decimal string
  denotes. Rounding of that rational to the nearest IEEE-754 double is not modelled, and
  the two signed zeros are one value (JavaScript's \<^verbatim>\<open>===\<close>, \<^verbatim>\<open>>\<close>, \<^verbatim>\<open>>=\<close> and the sign
  of a difference do not tell them apart).
\<close>

datatype jsnum = NaN | NegInf | Fin rat | PosInf

text \<open>\<^verbatim>\<open>a < b\<close>: false as soon as one side is NaN.\<close>

fun js_lt :: "jsnum \<Rightarrow> jsnum \<Rightarrow> bool" where
  "js_lt NaN b = False"
| "js_lt a NaN = False"
| "js_lt (Fin a) (Fin b) = (a < b)"
| "js_lt a NegInf = False"
| "js_lt NegInf b = True"
| "js_lt PosInf b = False"
| "js_lt a PosInf = True"

text \<open>\<^verbatim>\<open>a === b\<close> on numbers: NaN is equal to nothing, itself included.\<close>

definition js_eq :: "jsnum \<Rightarrow> jsnum \<Rightarrow> bool" where
  "js_eq a b = (a \<noteq> NaN \<and> b \<noteq> NaN \<and> a = b)"

definition js_gt :: "jsnum \<Rightarrow> jsnum \<Rightarrow> bool" where
  "js_gt a b = js_lt b a"

definition js_ge :: "jsnum \<Rightarrow> jsnum \<Rightarrow> bool" where
  "js_ge a b = (js_lt b a \<or> js_eq a b)"

text \<open>Unary minus and \<^verbatim>\<open>a - b\<close>; a difference of equal infinities is NaN.\<close>

fun js_neg :: "jsnum \<Rightarrow> jsnum" where
  "js_neg NaN = NaN"
| "js_neg NegInf = PosInf"
| "js_neg PosInf = NegInf"
| "js_neg (Fin a) = Fin (- a)"

fun js_sub :: "jsnum \<Rightarrow> jsnum \<Rightarrow> jsnum" where
  "js_sub NaN b = NaN"
| "js_sub a NaN = NaN"
| "js_sub (Fin a) (Fin b) = Fin (a - b)"
| "js_sub PosInf PosInf = NaN"
| "js_sub NegInf NegInf = NaN"
| "js_sub PosInf b = PosInf"
| "js_sub NegInf b = NegInf"
| "js_sub a PosInf = NegInf"
| "js_sub a NegInf = PosInf"

section \<open>Reading and writing numbers\<close>

text \<open>
  Strings are lists of 8-bit characters, so the white space that \<^verbatim>\<open>parseFloat\<close> and
  \<^verbatim>\<open>parseInt\<close> skip is the ASCII part of ECMAScript's StrWhiteSpaceChar: tab, line
  feed, vertical tab, form feed, carriage return and space.
\<close>

definition is_ws :: "char \<Rightarrow> bool" where
  "is_ws c = (c \<in> set [CHR 0x09, CHR 0x0A, CHR 0x0B, CHR 0x0C, CHR 0x0D, CHR 0x20])"

definition is_digit :: "char \<Rightarrow> bool" where
  "is_digit c = (c \<in> set ''0123456789'')"

text \<open>The value of a digit of radix up to 16 (both letter cases), if it is one.\<close>

definition digit_val :: "char \<Rightarrow> nat option" where
  "digit_val c =
     map_of
       [(CHR ''0'', 0), (CHR ''1'', 1), (CHR ''2'', 2), (CHR ''3'', 3), (CHR ''4'', 4),
        (CHR ''5'', 5), (CHR ''6'', 6), (CHR ''7'', 7), (CHR ''8'', 8), (CHR ''9'', 9),
        (CHR ''a'', 10), (CHR ''b'', 11), (CHR ''c'', 12), (CHR ''d'', 13), (CHR ''e'', 14),
        (CHR ''f'', 15), (CHR ''A'', 10), (CHR ''B'', 11), (CHR ''C'', 12), (CHR ''D'', 13),
        (CHR ''E'', 14), (CHR ''F'', 15)] c"

definition is_radix_digit :: "nat \<Rightarrow> char \<Rightarrow> bool" where
  "is_radix_digit radix c = (case digit_val c of None \<Rightarrow> False | Some d \<Rightarrow> d < radix)"

definition digits_val :: "nat \<Rightarrow> string \<Rightarrow> nat" where
  "digits_val radix ds = foldl (\<lambda>a c. radix * a + (case digit_val c of None \<Rightarrow> 0 | Some d \<Rightarrow> d)) 0 ds"

text \<open>
  The exponent part of a StrDecimalLiteral: \<^verbatim>\<open>e\<close> or \<^verbatim>\<open>E\<close>, an optional sign and at
  least one digit. Where no digit follows, the longest literal ends before the letter and
  the exponent is 0.
\<close>

definition exponent_part :: "string \<Rightarrow> int" where
  "exponent_part r =
     (case r of
        [] \<Rightarrow> 0
      | e # r1 \<Rightarrow>
          if e = CHR ''e'' \<or> e = CHR ''E'' then
            (let neg = (r1 \<noteq> [] \<and> hd r1 = CHR ''-'');
                 r2 = (if r1 \<noteq> [] \<and> (hd r1 = CHR ''-'' \<or> hd r1 = CHR ''+'') then tl r1 else r1);
                 ds = takeWhile is_digit r2
             in if ds = [] then 0
                else if neg then - int (digits_val 10 ds) else int (digits_val 10 ds))
          else 0)"

definition pow10 :: "int \<Rightarrow> rat" where
  "pow10 e = (if 0 \<le> e then 10 ^ nat e else 1 / 10 ^ nat (- e))"

text \<open>
  The unsigned part of \<^verbatim>\<open>parseFloat\<close>: the literal \<^verbatim>\<open>Infinity\<close>, or digits with an
  optional fraction and exponent (at least one digit before or after the point); NaN when
  the string starts with neither.
\<close>

definition parse_unsigned :: "string \<Rightarrow> jsnum" where
  "parse_unsigned r =
     (if take 8 r = ''Infinity'' then PosInf
      else
        (let ip = takeWhile is_digit r;
             r1 = dropWhile is_digit r;
             has_point = (r1 \<noteq> [] \<and> hd r1 = CHR ''.'');
             fp = (if has_point then takeWhile is_digit (tl r1) else []);
             r2 = (if has_point then dropWhile is_digit (tl r1) else r1)
         in if ip = [] \<and> fp = [] then NaN
            else Fin (of_nat (digits_val 10 (ip @ fp)) / 10 ^ length fp
                      * pow10 (exponent_part r2))))"

definition parseFloat :: "string \<Rightarrow> jsnum" where
  "parseFloat s =
     (let t = dropWhile is_ws s in
      if t \<noteq> [] \<and> hd t = CHR ''-'' then js_neg (parse_unsigned (tl t))
      else if t \<noteq> [] \<and> hd t = CHR ''+'' then parse_unsigned (tl t)
      else parse_unsigned t)"

text \<open>
  \<^verbatim>\<open>parseInt(string)\<close> with no radix argument: white space and a sign are skipped, a
  prefix \<^verbatim>\<open>0x\<close> or \<^verbatim>\<open>0X\<close> selects radix 16, otherwise the radix is 10; the value is
  that of the longest run of digits, NaN when there is none.
\<close>

definition parseInt :: "string \<Rightarrow> jsnum" where
  "parseInt s =
     (let t = dropWhile is_ws s;
          neg = (t \<noteq> [] \<and> hd t = CHR ''-'');
          r = (if t \<noteq> [] \<and> (hd t = CHR ''-'' \<or> hd t = CHR ''+'') then tl t else t);
          hex = (take 2 r = ''0x'' \<or> take 2 r = ''0X'');
          radix = (if hex then 16 else 10);
          ds = takeWhile (is_radix_digit radix) (if hex then drop 2 r else r)
      in if ds = [] then NaN
         else if neg then Fin (- of_nat (digits_val radix ds))
         else Fin (of_nat (digits_val radix ds)))"

text \<open>
  Template literals print the loop index of \<^verbatim>\<open>displayResults\<close>, a whole number from 1
  to 20, in decimal.
\<close>

fun show_nat :: "nat \<Rightarrow> string" where
  "show_nat n =
     (if n < 10 then [''0123456789'' ! n]
      else show_nat (n div 10) @ [''0123456789'' ! (n mod 10)])"

declare show_nat.simps [simp del]

section \<open>formatClusterPoints\<close>

text \<open>
  \<^verbatim>\<open>formatClusterPoints(points)\<close> (script.js, lines 41-47): the argument is the formatted
  string; the comparisons are made on its \<^verbatim>\<open>parseFloat\<close>, in the order of the source.
\<close>

definition formatClusterPoints :: "string \<Rightarrow> string" where
  \<open>formatClusterPoints points =
     (let num = parseFloat points in
      if js_ge num (Fin 30) then ''<span class="points-high">'' @ points @ ''</span>''
      else if js_ge num (Fin 15) then ''<span class="points-medium">'' @ points @ ''</span>''
      else if js_gt num (Fin 0) then points
      else ''<span class="points-zero">0.000</span>'')\<close>

section \<open>Array.prototype.sort\<close>

text \<open>
  \<^verbatim>\<open>array.sort(comparefn)\<close>. ECMAScript leaves the algorithm to the engine but requires
  the sort to be stable (since ES2019), so for a comparator that is a consistent ordering
  every engine returns the same array: the stable ordering, which this insertion sort
  computes. For an inconsistent comparator (one that meets a NaN among other numbers)
  the standard leaves the order to the engine, and the model gives one of the orders it
  allows. \<open>sort_compare\<close> is the standard's SortCompare step: a comparator result that
  is NaN counts as 0. An element goes behind another only where the comparator's result
  is positive.
\<close>

definition sort_compare :: "jsnum \<Rightarrow> jsnum" where
  "sort_compare v = (if v = NaN then Fin 0 else v)"

definition goes_after :: "('a \<Rightarrow> 'a \<Rightarrow> jsnum) \<Rightarrow> 'a \<Rightarrow> 'a \<Rightarrow> bool" where
  "goes_after comparefn x y = js_lt (Fin 0) (sort_compare (comparefn x y))"

fun insert_sorted :: "('a \<Rightarrow> 'a \<Rightarrow> jsnum) \<Rightarrow> 'a \<Rightarrow> 'a list \<Rightarrow> 'a list" where
  "insert_sorted comparefn x [] = [x]"
| "insert_sorted comparefn x (y # ys) =
     (if goes_after comparefn x y then y # insert_sorted comparefn x ys else x # y # ys)"

definition array_sort :: "('a \<Rightarrow> 'a \<Rightarrow> jsnum) \<Rightarrow> 'a list \<Rightarrow> 'a list" where
  "array_sort comparefn xs = foldr (insert_sorted comparefn) xs []"

text \<open>
  \<^verbatim>\<open>array.indexOf(x)\<close>: the first index holding \<open>x\<close>, or -1. The script calls it on
  cluster objects, which JavaScript compares by identity; the objects of one array differ
  in their \<open>id\<close>, so equality of the records is the same test.
\<close>

fun indexOf :: "'a list \<Rightarrow> 'a \<Rightarrow> int" where
  "indexOf [] x = - 1"
| "indexOf (y # ys) x =
     (if y = x then 0 else (let k = indexOf ys x in if k < 0 then - 1 else k + 1))"

section \<open>The response and the page\<close>

text \<open>
  The parts of the \<^verbatim>\<open>/calculate\<close> response that the script reads when it builds the
  cluster cards and the details of a cluster. A missing object or property
  (\<^verbatim>\<open>undefined\<close>) is \<open>None\<close>. The formatted points of a cluster are strings.

  The points of a subject are Numbers that \<^verbatim>\<open>showClusterDetails\<close> adds up and prints.
  They are IEEE-754 doubles, and neither the rounding of their sum nor the way a template
  literal prints a double is modelled: \<open>number\<close> is a type of which nothing is known,
  and the Number 0, the addition \<^verbatim>\<open>a + b\<close> and the conversion to a string are taken
  as they are in the engine, as the fields of \<open>number_ops\<close>.
\<close>

typedecl number

record number_ops =
  num_zero :: number
  num_add :: "number \<Rightarrow> number \<Rightarrow> number"
  num_toString :: "number \<Rightarrow> string"

record subject_used =
  subject :: string
  grade :: string
  points_s :: number
  requirement :: "string option"

record details_entry =
  description_d :: "string option"
  subjects_used :: "subject_used list option"

record response =
  results :: "(string \<rightharpoonup> string) option"
  details :: "(string \<rightharpoonup> details_entry) option"

text \<open>The objects pushed on \<^verbatim>\<open>clusters\<close> in \<^verbatim>\<open>displayResults\<close> (lines 118-124).\<close>

record cluster =
  id_c :: nat
  name :: string
  points :: jsnum
  pointsFormatted :: string
  description :: string

text \<open>
  A \<^verbatim>\<open>div.cluster-card\<close> element. The fields named after the CSS classes hold the
  inner HTML of the card's child elements; \<open>onclick\<close> is the id of the cluster that the
  click handler closes over; \<open>foot\<close> is the last child: the empty
  \<^verbatim>\<open>div.cluster-subjects\<close> with its id attribute on a card of the grid, the badge
  \<^verbatim>\<open>Top k\<close> with its number on a card of the top section; \<open>display\<close> is
  \<^verbatim>\<open>style.display\<close>, empty until the script sets it.
\<close>

datatype card_foot = Subjects string | TopBadge int

record card =
  className :: string
  onclick :: nat
  cluster_number :: string
  cluster_points :: string
  cluster_name :: string
  cluster_description :: string
  foot :: card_foot
  display :: string

text \<open>
  The elements that \<^verbatim>\<open>displayResults\<close> and \<^verbatim>\<open>sortClusters\<close> write. The aggregate
  line (lines 100-106) writes another element and is left out: the model of
  \<^verbatim>\<open>displayResults\<close> starts where that line is done.
\<close>

record page =
  resultsSection_display :: string
  clusterGrid :: "card list"
  topClustersSection_display :: string
  topClustersGrid :: "card list"

datatype js_error = TypeError | ReferenceError

section \<open>displayResults\<close>

text \<open>
  The loop of lines 114-126 over \<open>i = 1, ..., 20\<close>. A key is skipped when
  \<^verbatim>\<open>data.results\<close> is missing or the entry is missing or the empty string (falsy).
  \<^verbatim>\<open>data.details[clusterKey]\<close> raises a TypeError when \<^verbatim>\<open>data.details\<close> is
  missing; the optional chaining and \<^verbatim>\<open>|| ''\<close> give the empty description otherwise.
\<close>

fun collect_clusters :: "response \<Rightarrow> nat list \<Rightarrow> cluster list \<Rightarrow> js_error + cluster list" where
  "collect_clusters data [] clusters = Inr clusters"
| "collect_clusters data (i # rest) clusters =
     (let clusterKey = ''Cluster '' @ show_nat i in
      case (case results data of None \<Rightarrow> None | Some r \<Rightarrow> r clusterKey) of
        None \<Rightarrow> collect_clusters data rest clusters
      | Some formatted \<Rightarrow>
          if formatted = [] then collect_clusters data rest clusters
          else
            (case details data of
               None \<Rightarrow> Inl TypeError
             | Some d \<Rightarrow>
                 collect_clusters data rest
                   (clusters @
                    [\<lparr>id_c = i, name = clusterKey, points = parseFloat formatted,
                      pointsFormatted = formatted,
                      description =
                        (case d clusterKey of
                           None \<Rightarrow> []
                         | Some e \<Rightarrow> (case description_d e of None \<Rightarrow> [] | Some t \<Rightarrow> t))\<rparr>])))"

text \<open>Line 129: \<^verbatim>\<open>clusters.sort((a, b) => b.points - a.points)\<close>.\<close>

definition sorted_clusters :: "response \<Rightarrow> js_error + cluster list" where
  "sorted_clusters data =
     (case collect_clusters data [1 ..< 21] [] of
        Inl e \<Rightarrow> Inl e
      | Inr clusters \<Rightarrow> Inr (array_sort (\<lambda>a b. js_sub (points b) (points a)) clusters))"

text \<open>The card of the grid for one cluster (lines 135-164).\<close>

definition grid_card :: "cluster \<Rightarrow> card" where
  "grid_card c =
     \<lparr>className =
        ''cluster-card '' @
        (if js_eq (points c) (Fin 0) then ''zero''
         else if js_ge (points c) (Fin 30) then ''highlight'' else []),
      onclick = id_c c,
      cluster_number = show_nat (id_c c),
      cluster_points = formatClusterPoints (pointsFormatted c),
      cluster_name = name c,
      cluster_description = description c,
      foot = Subjects (''subjects-'' @ show_nat (id_c c)),
      display = []\<rparr>"

text \<open>
  The card of the top section (lines 169-199); its badge prints
  \<^verbatim>\<open>clusters.indexOf(cluster) + 1\<close>.
\<close>

definition top_card :: "cluster list \<Rightarrow> cluster \<Rightarrow> card" where
  "top_card clusters c =
     \<lparr>className = ''cluster-card highlight'',
      onclick = id_c c,
      cluster_number = show_nat (id_c c),
      cluster_points = formatClusterPoints (pointsFormatted c),
      cluster_name = name c,
      cluster_description = description c,
      foot = TopBadge (indexOf clusters c + 1),
      display = []\<rparr>"

text \<open>
  Lines 98 and 108-202 on the sorted array: both grids are emptied and filled again, the
  top section from \<^verbatim>\<open>clusters.slice(0, 3)\<close>.
\<close>

definition render :: "cluster list \<Rightarrow> page" where
  "render clusters =
     (let topClusters = take 3 clusters in
      \<lparr>resultsSection_display = ''block'',
       clusterGrid = map grid_card clusters,
       topClustersSection_display = (if topClusters \<noteq> [] then ''block'' else ''none''),
       topClustersGrid = map (top_card clusters) topClusters\<rparr>)"

definition displayResults :: "response \<Rightarrow> js_error + page" where
  "displayResults data =
     (case sorted_clusters data of Inl e \<Rightarrow> Inl e | Inr clusters \<Rightarrow> Inr (render clusters))"

section \<open>sortClusters\<close>

text \<open>
  \<^verbatim>\<open>element.textContent\<close> of inner HTML that holds text and tags only: the text outside
  the tags. Character references and comments are not decoded.
\<close>

fun strip_tags :: "bool \<Rightarrow> string \<Rightarrow> string" where
  "strip_tags in_tag [] = []"
| "strip_tags in_tag (c # cs) =
     (if in_tag then strip_tags (c \<noteq> CHR ''>'') cs
      else if c = CHR ''<'' then strip_tags True cs
      else c # strip_tags False cs)"

definition textContent :: "string \<Rightarrow> string" where
  "textContent html = strip_tags False html"

text \<open>
  What the comparator and the filter read from a card (lines 218-221 and 243):
  \<^verbatim>\<open>parseInt\<close> of the number's text, and \<^verbatim>\<open>parseFloat\<close> of the points' text with
  every character but digits and points removed, \<^verbatim>\<open>0\<close> when nothing is left.
\<close>

definition card_id :: "card \<Rightarrow> jsnum" where
  "card_id a = parseInt (textContent (cluster_number a))"

definition card_points :: "card \<Rightarrow> jsnum" where
  "card_points a =
     (let t = filter (\<lambda>c. is_digit c \<or> c = CHR ''.'') (textContent (cluster_points a))
      in parseFloat (if t = [] then ''0'' else t))"

definition compare_cards :: "string \<Rightarrow> card \<Rightarrow> card \<Rightarrow> jsnum" where
  "compare_cards sortType a b =
     (let aId = card_id a; bId = card_id b;
          aPoints = card_points a; bPoints = card_points b
      in if sortType = ''number'' then js_sub aId bId
         else if sortType = ''points'' then js_sub bPoints aPoints
         else if sortType = ''non-zero'' then
           (if js_eq aPoints (Fin 0) \<and> js_gt bPoints (Fin 0) then Fin 1
            else if js_gt aPoints (Fin 0) \<and> js_eq bPoints (Fin 0) then Fin (- 1)
            else js_sub bPoints aPoints)
         else js_sub aId bId)"

text \<open>Lines 241-248: the display of a card after a sort.\<close>

definition set_display :: "string \<Rightarrow> card \<Rightarrow> card" where
  "set_display sortType c =
     (if sortType = ''non-zero''
      then c\<lparr>display := (if js_eq (card_points c) (Fin 0) then ''none'' else ''block'')\<rparr>
      else c\<lparr>display := ''block''\<rparr>)"

text \<open>
  \<^verbatim>\<open>sortClusters(sortType)\<close> (lines 208-249) as a function of the page: the cards of
  the grid are sorted, appended to the grid again in that order, and their display is set.
  The two statements that move the \<^verbatim>\<open>active\<close> class between the sort buttons (they
  read the click from the global \<^verbatim>\<open>event\<close>) touch no card and are left out.
\<close>

definition sortClusters :: "string \<Rightarrow> page \<Rightarrow> page" where
  "sortClusters sortType p =
     p\<lparr>clusterGrid :=
         map (set_display sortType) (array_sort (compare_cards sortType) (clusterGrid p))\<rparr>"

section \<open>showClusterDetails\<close>

text \<open>
  \<^verbatim>\<open>s.replace('_', ' ')\<close> replaces the first underscore only; \<^verbatim>\<open>toUpperCase\<close> is
  modelled on the ASCII letters.
\<close>

fun replace_first :: "char \<Rightarrow> char \<Rightarrow> string \<Rightarrow> string" where
  "replace_first a b [] = []"
| "replace_first a b (c # cs) = (if c = a then b # cs else c # replace_first a b cs)"

definition toUpperCase :: "string \<Rightarrow> string" where
  "toUpperCase s =
     map (\<lambda>c. case map_of (zip ''abcdefghijklmnopqrstuvwxyz'' ''ABCDEFGHIJKLMNOPQRSTUVWXYZ'') c of
                 None \<Rightarrow> c | Some u \<Rightarrow> u) s"

text \<open>The modal: the title's text, the content's inner HTML, and whether it is shown.\<close>

record modal =
  modalTitle :: string
  modalContent :: string
  shown :: bool

text \<open>The template of lines 64-73 for one subject.\<close>

definition subject_item :: "number_ops \<Rightarrow> subject_used \<Rightarrow> string" where
  \<open>subject_item ops s =
     (let gradeClass = ''grade-'' @ take 1 (grade s) in
      ''<div class="subject-detail-item">'' @ [CHR 0x0A] @
      ''                <div class="d-flex justify-content-between align-items-center">'' @ [CHR 0x0A] @
      ''                    <div>'' @ [CHR 0x0A] @
      ''                        <span class="subject-grade">'' @
        toUpperCase (replace_first (CHR ''_'') (CHR '' '') (subject s)) @ ''</span>'' @ [CHR 0x0A] @
      ''                        <span class="badge '' @ gradeClass @ '' subject-badge">'' @
        grade s @ ''</span>'' @ [CHR 0x0A] @
      ''                        '' @
        (case requirement s of
           None \<Rightarrow> []
         | Some r \<Rightarrow> if r = [] then [] else ''<span class="requirement-badge">'' @ r @ ''</span>'') @
        [CHR 0x0A] @
      ''                    </div>'' @ [CHR 0x0A] @
      ''                    <div class="subject-points">'' @ num_toString ops (points_s s) @
        '' points</div>'' @
        [CHR 0x0A] @
      ''                </div>'' @ [CHR 0x0A] @
      ''            </div>'')\<close>

text \<open>The \<^verbatim>\<open>forEach\<close> of lines 62-75, on the pair of \<^verbatim>\<open>html\<close> and \<^verbatim>\<open>totalPoints\<close>.\<close>

fun forEach_subject ::
    "number_ops \<Rightarrow> subject_used list \<Rightarrow> string \<times> number \<Rightarrow> string \<times> number" where
  "forEach_subject ops [] (html, totalPoints) = (html, totalPoints)"
| "forEach_subject ops (s # rest) (html, totalPoints) =
     forEach_subject ops rest
       (html @ subject_item ops s, num_add ops totalPoints (points_s s))"

text \<open>
  \<^verbatim>\<open>showClusterDetails(clusterId, clusterName, points, subjectsUsed)\<close> (lines 49-88).
  The function appends to a variable \<^verbatim>\<open>html\<close> that script.js declares nowhere, so
  the variable is the global of that name: \<open>html_global\<close> is its value, \<open>None\<close> when
  no such global exists, as on a page that loads script.js and declares no \<^verbatim>\<open>html\<close>
  elsewhere. Then the first statement that reads it (line 58 for subjects, line 83
  without) raises a ReferenceError. Otherwise the global is left holding the modal's
  content.
\<close>

definition showClusterDetails ::
    "number_ops \<Rightarrow> string option \<Rightarrow> nat \<Rightarrow> string \<Rightarrow> string \<Rightarrow> subject_used list option \<Rightarrow>
     js_error + modal" where
  \<open>showClusterDetails ops html_global clusterId clusterName pts subjectsUsed =
     (case html_global of
        None \<Rightarrow> Inl ReferenceError
      | Some html \<Rightarrow>
          Inr \<lparr>modalTitle = clusterName @ '' Details'',
               modalContent =
                 (case subjectsUsed of
                    None \<Rightarrow> html
                  | Some subs \<Rightarrow>
                      if 0 < length subs then
                        (let (html2, totalPoints) =
                               forEach_subject ops subs
                                 (html @ ''<h6 class="mb-3"><i class="fas fa-book"></i> Subjects Used:</h6>'' @
                                  [CHR 0x0A] @ ''        <div class="subject-details">'',
                                  num_zero ops)
                         in html2 @ ''</div>'' @ [CHR 0x0A] @
                            ''        <div class="mt-3 p-3 bg-light rounded">'' @ [CHR 0x0A] @
                            ''            <strong>Total Cluster Points (x):</strong> '' @
                            num_toString ops totalPoints @ '' / 48'' @ [CHR 0x0A] @
                            ''        </div>'')
                      else html),
               shown = True\<rparr>)\<close>

section \<open>Orders on cards and example inputs\<close>

text \<open>
  The orders that the statements below speak of, on what \<^verbatim>\<open>sortClusters\<close> reads from
  the cards: ascending id, and descending points with ties in ascending id.
\<close>

definition by_number :: "card \<Rightarrow> card \<Rightarrow> bool" where
  "by_number a b = js_lt (card_id a) (card_id b)"

definition by_points :: "card \<Rightarrow> card \<Rightarrow> bool" where
  "by_points a b =
     (js_lt (card_points b) (card_points a) \<or>
      (card_points a = card_points b \<and> js_lt (card_id a) (card_id b)))"

text \<open>
  A grid whose cards all read as numbers, with no id twice; and a grid in which, of two
  cards with the same points, the one with the smaller id stands first.
\<close>

definition well_read :: "card list \<Rightarrow> bool" where
  "well_read g =
     (list_all (\<lambda>c. card_id c \<noteq> NaN \<and> card_points c \<noteq> NaN) g \<and> distinct (map card_id g))"

definition ties_by_id :: "card list \<Rightarrow> bool" where
  "ties_by_id g =
     sorted_wrt (\<lambda>a b. card_points a = card_points b \<longrightarrow> js_lt (card_id a) (card_id b)) g"

text \<open>A card without its display: what a sort must leave as it is.\<close>

definition content :: "card \<Rightarrow> card" where
  "content c = c\<lparr>display := []\<rparr>"

text \<open>The results of the specification's end-to-end scenario, with no details.\<close>

definition example_results :: "string \<rightharpoonup> string" where
  "example_results =
     [''Cluster 1'' \<mapsto> ''32.500'', ''Cluster 2'' \<mapsto> ''32.500'', ''Cluster 3'' \<mapsto> ''0.000'']"

definition example_data :: response where
  "example_data = \<lparr>results = Some example_results, details = Some Map.empty\<rparr>"

section \<open>The loop of displayResults in closed form\<close>

text \<open>
  What the loop of \<^verbatim>\<open>displayResults\<close> collects, for the proofs: the entry of a key when
  it is present and not empty, the cluster made of it, and the clusters of a list of ids.
\<close>

definition entry_of :: "response \<Rightarrow> nat \<Rightarrow> string option" where
  "entry_of data i =
     (case results data of
        None \<Rightarrow> None
      | Some r \<Rightarrow>
          (case r (''Cluster '' @ show_nat i) of
             None \<Rightarrow> None
           | Some formatted \<Rightarrow> if formatted = [] then None else Some formatted))"

definition cluster_of :: "response \<Rightarrow> nat \<Rightarrow> string \<Rightarrow> cluster" where
  "cluster_of data i formatted =
     \<lparr>id_c = i, name = ''Cluster '' @ show_nat i, points = parseFloat formatted,
      pointsFormatted = formatted,
      description =
        (case details data of
           None \<Rightarrow> []
         | Some d \<Rightarrow>
             (case d (''Cluster '' @ show_nat i) of
                None \<Rightarrow> []
              | Some e \<Rightarrow> (case description_d e of None \<Rightarrow> [] | Some t \<Rightarrow> t)))\<rparr>"

definition collected :: "response \<Rightarrow> nat list \<Rightarrow> cluster list" where
  "collected data ns = List.map_filter (\<lambda>i. map_option (cluster_of data i) (entry_of data i)) ns"

section \<open>Strings that read back, and example inputs\<close>

text \<open>
  A cluster whose points are what \<^verbatim>\<open>parseFloat\<close> reads from its formatted string, and
  whose card reads back to the same points: \<^verbatim>\<open>sortClusters\<close> takes the points from the
  card's text, not from the cluster. It holds for a string such as 32.500; it fails for
  a string that is negative, not a number, or written with an exponent (lemma
  \<open>reads_back_examples\<close>).
\<close>

definition reads_back :: "cluster \<Rightarrow> bool" where
  "reads_back c = (points c = parseFloat (pointsFormatted c) \<and> card_points (grid_card c) = points c)"

text \<open>
  Four clusters out of id order, two of them with the same points, and the array that
  \<^verbatim>\<open>displayResults\<close> makes of them.
\<close>

definition mixed_data :: response where
  "mixed_data =
     \<lparr>results =
        Some [''Cluster 1'' \<mapsto> ''12.500'', ''Cluster 2'' \<mapsto> ''32.500'',
              ''Cluster 3'' \<mapsto> ''0.000'', ''Cluster 4'' \<mapsto> ''12.500''],
      details = Some Map.empty\<rparr>"

definition mixed_clusters :: "cluster list" where
  "mixed_clusters =
     [\<lparr>id_c = 2, name = ''Cluster 2'', points = Fin (65 / 2), pointsFormatted = ''32.500'',
       description = []\<rparr>,
      \<lparr>id_c = 1, name = ''Cluster 1'', points = Fin (25 / 2), pointsFormatted = ''12.500'',
       description = []\<rparr>,
      \<lparr>id_c = 4, name = ''Cluster 4'', points = Fin (25 / 2), pointsFormatted = ''12.500'',
       description = []\<rparr>,
      \<lparr>id_c = 3, name = ''Cluster 3'', points = Fin 0, pointsFormatted = ''0.000'',
       description = []\<rparr>]"

text \<open>The array that \<^verbatim>\<open>displayResults\<close> makes of the scenario's results.\<close>

definition example_clusters :: "cluster list" where
  "example_clusters =
     [\<lparr>id_c = 1, name = ''Cluster 1'', points = Fin (65 / 2), pointsFormatted = ''32.500'',
       description = []\<rparr>,
      \<lparr>id_c = 2, name = ''Cluster 2'', points = Fin (65 / 2), pointsFormatted = ''32.500'',
       description = []\<rparr>,
      \<lparr>id_c = 3, name = ''Cluster 3'', points = Fin 0, pointsFormatted = ''0.000'',
       description = []\<rparr>]"

text \<open>Results with a string that is not a number.\<close>

definition unparseable_data :: response where
  "unparseable_data =
     \<lparr>results = Some [''Cluster 1'' \<mapsto> ''abc'', ''Cluster 2'' \<mapsto> ''20.000''],
      details = Some Map.empty\<rparr>"

section \<open>Evaluation\<close>

lemma ids_1_20:
  "[Suc 0 ..< 21] = [Suc 0, 2, 3, 4, 5, 6, 7, 8, 9, 10, 11, 12, 13, 14, 15, 16, 17, 18, 19, 20]"
  by code_simp

lemmas parse_defs =
  parseFloat_def parse_unsigned_def is_ws_def is_digit_def digits_val_def digit_val_def
  exponent_part_def pow10_def parseInt_def is_radix_digit_def Let_def

lemmas js_defs = js_ge_def js_gt_def js_eq_def sort_compare_def goes_after_def

lemmas page_defs =
  show_nat.simps formatClusterPoints_def array_sort_def sorted_clusters_def
  grid_card_def top_card_def render_def displayResults_def textContent_def card_id_def
  card_points_def compare_cards_def set_display_def sortClusters_def ids_1_20

section \<open>Facts about numbers\<close>

lemma js_lt_irrefl [simp]: "\<not> js_lt a a"
  by (cases a) simp_all

lemma js_lt_trans: "js_lt a b \<Longrightarrow> js_lt b c \<Longrightarrow> js_lt a c"
  by (cases a; cases b; cases c) simp_all

lemma js_lt_asym: "js_lt a b \<Longrightarrow> \<not> js_lt b a"
  by (cases a; cases b) simp_all

lemma js_lt_total: "a \<noteq> NaN \<Longrightarrow> b \<noteq> NaN \<Longrightarrow> a = b \<or> js_lt a b \<or> js_lt b a"
  by (cases a; cases b) auto

lemma js_lt_not_NaN: "js_lt a b \<Longrightarrow> a \<noteq> NaN \<and> b \<noteq> NaN"
  by (cases a; cases b) simp_all

text \<open>
  A comparator that returns a difference puts its first argument behind the second
  exactly when the subtrahend is the smaller number.
\<close>

lemma goes_after_sub:
  "a \<noteq> NaN \<Longrightarrow> b \<noteq> NaN \<Longrightarrow> js_lt (Fin 0) (sort_compare (js_sub b a)) = js_lt a b"
  by (cases a; cases b) (auto simp: sort_compare_def)

section \<open>formatClusterPoints: the tiers\<close>

text \<open>
  C4. For every formatted string, by the number that \<^verbatim>\<open>parseFloat\<close> reads from it:
  at exactly 0 the result is the zero tier with the text 0.000, whatever the string was;
  from 30 on it is the high tier around the unchanged string; from 15 to below 30 the
  medium tier around the unchanged string; above 0 and below 15 the low tier, which is
  the unchanged string with no markup. The tiers are the CSS classes \<^verbatim>\<open>points-zero\<close>,
  \<^verbatim>\<open>points-high\<close> and \<^verbatim>\<open>points-medium\<close> of the returned span.
\<close>

theorem formatClusterPoints_tiers:
  \<open>(js_eq (parseFloat s) (Fin 0) \<longrightarrow>
      formatClusterPoints s = ''<span class="points-zero">0.000</span>'') \<and>
    (js_ge (parseFloat s) (Fin 30) \<longrightarrow>
      formatClusterPoints s = ''<span class="points-high">'' @ s @ ''</span>'') \<and>
    (js_ge (parseFloat s) (Fin 15) \<and> js_lt (parseFloat s) (Fin 30) \<longrightarrow>
      formatClusterPoints s = ''<span class="points-medium">'' @ s @ ''</span>'') \<and>
    (js_gt (parseFloat s) (Fin 0) \<and> js_lt (parseFloat s) (Fin 15) \<longrightarrow>
      formatClusterPoints s = s)\<close>
  by (cases "parseFloat s") (auto simp: formatClusterPoints_def js_defs)

theorem formatClusterPoints_tiers_witness:
  \<open>js_ge (parseFloat ''30'') (Fin 30) \<and>
    formatClusterPoints ''30'' = ''<span class="points-high">30</span>'' \<and>
    js_ge (parseFloat ''29.999'') (Fin 15) \<and> js_lt (parseFloat ''29.999'') (Fin 30) \<and>
    formatClusterPoints ''29.999'' = ''<span class="points-medium">29.999</span>'' \<and>
    js_ge (parseFloat ''15'') (Fin 15) \<and> js_lt (parseFloat ''15'') (Fin 30) \<and>
    formatClusterPoints ''15'' = ''<span class="points-medium">15</span>'' \<and>
    js_gt (parseFloat ''14.999'') (Fin 0) \<and> js_lt (parseFloat ''14.999'') (Fin 15) \<and>
    formatClusterPoints ''14.999'' = ''14.999'' \<and>
    js_eq (parseFloat ''0'') (Fin 0) \<and>
    formatClusterPoints ''0'' = ''<span class="points-zero">0.000</span>'' \<and>
    js_eq (parseFloat ''0.00'') (Fin 0) \<and>
    formatClusterPoints ''0.00'' = ''<span class="points-zero">0.000</span>''\<close>
proof -
  have p30: "parseFloat ''30'' = Fin 30" by (simp add: parse_defs)
  have p29: "parseFloat ''29.999'' = Fin (29999 / 1000)" by (simp add: parse_defs)
  have p15: "parseFloat ''15'' = Fin 15" by (simp add: parse_defs)
  have p14: "parseFloat ''14.999'' = Fin (14999 / 1000)" by (simp add: parse_defs)
  have p0: "parseFloat ''0'' = Fin 0" by (simp add: parse_defs)
  have p00: "parseFloat ''0.00'' = Fin 0" by (simp add: parse_defs)
  show ?thesis
    using formatClusterPoints_tiers [of "''30''"] formatClusterPoints_tiers [of "''29.999''"]
      formatClusterPoints_tiers [of "''15''"] formatClusterPoints_tiers [of "''14.999''"]
      formatClusterPoints_tiers [of "''0''"] formatClusterPoints_tiers [of "''0.00''"]
    by (simp add: p30 p29 p15 p14 p0 p00 js_defs)
qed

text \<open>
  C9. A string from which \<^verbatim>\<open>parseFloat\<close> reads NaN fails every comparison and is
  shown as the zero tier with the text 0.000, like a score of exactly zero.
\<close>

theorem formatClusterPoints_NaN:
  \<open>parseFloat s = NaN \<Longrightarrow> formatClusterPoints s = ''<span class="points-zero">0.000</span>''\<close>
  by (simp add: formatClusterPoints_def js_defs)

theorem formatClusterPoints_NaN_witness:
  \<open>parseFloat ''abc'' = NaN \<and>
    formatClusterPoints ''abc'' = ''<span class="points-zero">0.000</span>'' \<and>
    formatClusterPoints ''0.000'' = ''<span class="points-zero">0.000</span>''\<close>
proof -
  have h: "parseFloat ''abc'' = NaN" by (simp add: parse_defs)
  have z: "formatClusterPoints ''0.000'' = formatClusterPoints ''abc''"
    by (simp add: formatClusterPoints_def parse_defs js_defs)
  show ?thesis using h z formatClusterPoints_NaN [OF h] by simp
qed

section \<open>Facts about the sort\<close>

lemma mset_insert_sorted: "mset (insert_sorted f x ys) = add_mset x (mset ys)"
  by (induction ys) simp_all

lemma set_insert_sorted: "set (insert_sorted f x ys) = insert x (set ys)"
  by (induction ys) auto

lemma array_sort_Nil [simp]: "array_sort f [] = []"
  by (simp add: array_sort_def)

lemma array_sort_Cons: "array_sort f (x # xs) = insert_sorted f x (array_sort f xs)"
  by (simp add: array_sort_def)

lemma mset_array_sort: "mset (array_sort f xs) = mset xs"
  by (induction xs) (simp_all add: array_sort_Cons mset_insert_sorted)

lemma set_array_sort: "set (array_sort f xs) = set xs"
  using mset_array_sort [of f xs] by (metis set_mset_mset)

lemma length_array_sort: "length (array_sort f xs) = length xs"
  using mset_array_sort [of f xs] by (metis size_mset)

text \<open>
  Inserting keeps a list sorted for an order \<open>R\<close> when the comparator sends an element
  behind another only if \<open>R\<close> has them that way round, and \<open>R\<close> holds from the new
  element to whatever the comparator leaves behind it.
\<close>

lemma sorted_insert_sorted:
  assumes "sorted_wrt R ys"
    and "\<And>y. y \<in> set ys \<Longrightarrow> goes_after f x y \<Longrightarrow> R y x"
    and "\<And>y. y \<in> set ys \<Longrightarrow> \<not> goes_after f x y \<Longrightarrow> R x y"
    and "\<And>y z. y \<in> set ys \<Longrightarrow> z \<in> set ys \<Longrightarrow> R x y \<Longrightarrow> R y z \<Longrightarrow> R x z"
  shows "sorted_wrt R (insert_sorted f x ys)"
  using assms
proof (induction ys)
  case Nil
  then show ?case by simp
next
  case (Cons y ys)
  show ?case
  proof (cases "goes_after f x y")
    case True
    have "sorted_wrt R (insert_sorted f x ys)"
      using Cons.prems by (intro Cons.IH) auto
    moreover have "R y x" using Cons.prems(2) True by simp
    ultimately show ?thesis
      using True Cons.prems(1) by (auto simp: set_insert_sorted)
  next
    case False
    then have xy: "R x y" using Cons.prems(3) by simp
    have "R x z" if "z \<in> set ys" for z
      using Cons.prems(1,4) xy that by auto
    then show ?thesis using False xy Cons.prems(1) by auto
  qed
qed

text \<open>
  The sort is stable: where the input has its ties in the order \<open>T\<close>, the output is
  sorted for \<open>R\<close>, the comparator's order refined by \<open>T\<close>.
\<close>

lemma sorted_array_sort:
  assumes "sorted_wrt T xs"
    and "\<And>x y. x \<in> set xs \<Longrightarrow> y \<in> set xs \<Longrightarrow> goes_after f x y \<Longrightarrow> R y x"
    and "\<And>x y. x \<in> set xs \<Longrightarrow> y \<in> set xs \<Longrightarrow> T x y \<Longrightarrow> \<not> goes_after f x y \<Longrightarrow> R x y"
    and "\<And>x y z. x \<in> set xs \<Longrightarrow> y \<in> set xs \<Longrightarrow> z \<in> set xs \<Longrightarrow> R x y \<Longrightarrow> R y z \<Longrightarrow> R x z"
  shows "sorted_wrt R (array_sort f xs)"
  using assms
proof (induction xs)
  case Nil
  show ?case by simp
next
  case (Cons x xs)
  have sorted: "sorted_wrt R (array_sort f xs)"
  proof (rule Cons.IH)
    show "sorted_wrt T xs" using Cons.prems(1) by simp
  next
    fix a b assume "a \<in> set xs" "b \<in> set xs" "goes_after f a b"
    then show "R b a" using Cons.prems(2) [of a b] by simp
  next
    fix a b assume "a \<in> set xs" "b \<in> set xs" "T a b" "\<not> goes_after f a b"
    then show "R a b" using Cons.prems(3) [of a b] by simp
  next
    fix a b c assume "a \<in> set xs" "b \<in> set xs" "c \<in> set xs" "R a b" "R b c"
    then show "R a c" using Cons.prems(4) [of a b c] by simp
  qed
  have ties: "T x y" if "y \<in> set xs" for y
    using Cons.prems(1) that by simp
  show ?case
    unfolding array_sort_Cons
  proof (rule sorted_insert_sorted [OF sorted])
    fix y assume "y \<in> set (array_sort f xs)" "goes_after f x y"
    then show "R y x" using Cons.prems(2) [of x y] by (simp add: set_array_sort)
  next
    fix y assume "y \<in> set (array_sort f xs)" "\<not> goes_after f x y"
    then show "R x y" using Cons.prems(3) [of x y] ties [of y] by (simp add: set_array_sort)
  next
    fix y z assume "y \<in> set (array_sort f xs)" "z \<in> set (array_sort f xs)" "R x y" "R y z"
    then show "R x z" using Cons.prems(4) [of x y z] by (simp add: set_array_sort)
  qed
qed

text \<open>Two lists sorted for an asymmetric order that hold the same elements are equal.\<close>

lemma sorted_wrt_unique:
  assumes "sorted_wrt R xs" and "sorted_wrt R ys" and "set xs = set ys"
    and "\<And>a b. a \<in> set xs \<Longrightarrow> b \<in> set xs \<Longrightarrow> R a b \<Longrightarrow> \<not> R b a"
  shows "xs = ys"
  using assms
proof (induction xs arbitrary: ys)
  case Nil
  then show ?case by simp
next
  case (Cons x xs)
  from Cons.prems(3) obtain y ys' where ys: "ys = y # ys'" by (cases ys) auto
  have asym: "\<not> R b a" if "a \<in> set (x # xs)" "b \<in> set (x # xs)" "R a b" for a b
    using Cons.prems(4) [of a b] that by simp
  have irrefl: "\<not> R a a" if "a \<in> set (x # xs)" for a
    using asym [of a a] that by blast
  have xy: "x = y"
  proof (rule ccontr)
    assume ne: "x \<noteq> y"
    have "x \<in> set ys'" using Cons.prems(3) ne ys by auto
    then have yx: "R y x" using Cons.prems(2) ys by simp
    have yin: "y \<in> set xs" using Cons.prems(3) ne ys by auto
    then have "R x y" using Cons.prems(1) by simp
    then show False using asym [of x y] yin yx by simp
  qed
  have "x \<notin> set xs" using Cons.prems(1) irrefl [of x] by auto
  moreover have "y \<notin> set ys'" using Cons.prems(2) ys irrefl [of y] xy by auto
  ultimately have sets: "set xs = set ys'" using Cons.prems(3) ys xy by auto
  have "xs = ys'"
  proof (rule Cons.IH)
    show "sorted_wrt R xs" using Cons.prems(1) by simp
    show "sorted_wrt R ys'" using Cons.prems(2) ys by simp
    show "set xs = set ys'" by (rule sets)
    fix a b assume "a \<in> set xs" "b \<in> set xs" "R a b"
    then show "\<not> R b a" using asym [of a b] by simp
  qed
  then show ?case using xy ys by simp
qed

text \<open>
  The sort sees its comparator only through \<open>goes_after\<close>, and it commutes with a map
  that the comparator does not see.
\<close>

lemma insert_sorted_cong:
  "(\<And>y. y \<in> set ys \<Longrightarrow> goes_after f x y = goes_after g x y) \<Longrightarrow>
   insert_sorted f x ys = insert_sorted g x ys"
  by (induction ys) simp_all

lemma array_sort_cong:
  "(\<And>x y. x \<in> set xs \<Longrightarrow> y \<in> set xs \<Longrightarrow> goes_after f x y = goes_after g x y) \<Longrightarrow>
   array_sort f xs = array_sort g xs"
proof (induction xs)
  case Nil
  then show ?case by simp
next
  case (Cons x xs)
  have "array_sort f xs = array_sort g xs" using Cons.prems by (intro Cons.IH) auto
  moreover have "insert_sorted f x (array_sort g xs) = insert_sorted g x (array_sort g xs)"
    using Cons.prems by (intro insert_sorted_cong) (auto simp: set_array_sort)
  ultimately show ?case by (simp add: array_sort_Cons)
qed

lemma insert_sorted_map:
  "(\<And>a b. f (h a) (h b) = f a b) \<Longrightarrow>
   insert_sorted f (h x) (map h ys) = map h (insert_sorted f x ys)"
  by (induction ys) (simp_all add: goes_after_def)

lemma array_sort_map:
  "(\<And>a b. f (h a) (h b) = f a b) \<Longrightarrow> array_sort f (map h xs) = map h (array_sort f xs)"
  by (induction xs) (simp_all add: array_sort_Cons insert_sorted_map)

section \<open>Facts about sortClusters\<close>

lemma goes_after_by_id:
  "m \<noteq> ''points'' \<Longrightarrow> m \<noteq> ''non-zero'' \<Longrightarrow>
   goes_after (compare_cards m) a b = js_lt (Fin 0) (sort_compare (js_sub (card_id a) (card_id b)))"
  by (simp add: compare_cards_def goes_after_def Let_def)

lemma goes_after_points:
  "goes_after (compare_cards ''points'') a b =
   js_lt (Fin 0) (sort_compare (js_sub (card_points b) (card_points a)))"
  by (simp add: compare_cards_def goes_after_def Let_def)

text \<open>The two special cases of the non-zero comparator have the sign of the difference.\<close>

lemma goes_after_non_zero:
  "goes_after (compare_cards ''non-zero'') a b = goes_after (compare_cards ''points'') a b"
  by (cases "card_points a"; cases "card_points b")
    (auto simp: compare_cards_def goes_after_def Let_def js_defs)

lemma array_sort_non_zero:
  "array_sort (compare_cards ''non-zero'') g = array_sort (compare_cards ''points'') g"
  by (rule array_sort_cong) (rule goes_after_non_zero)

lemma by_points_trans: "by_points a b \<Longrightarrow> by_points b c \<Longrightarrow> by_points a c"
  unfolding by_points_def by (metis js_lt_trans)

lemma by_points_asym: "by_points a b \<Longrightarrow> \<not> by_points b a"
  unfolding by_points_def by (metis js_lt_asym js_lt_irrefl)

lemma sorted_points_mode:
  assumes m: "m = ''points'' \<or> m = ''non-zero''"
    and num: "list_all (\<lambda>c. card_points c \<noteq> NaN) g"
    and ties: "ties_by_id g"
  shows "sorted_wrt by_points (array_sort (compare_cards m) g)"
proof -
  have eq: "array_sort (compare_cards m) g = array_sort (compare_cards ''points'') g"
    using m array_sort_non_zero by auto
  have after: "goes_after (compare_cards ''points'') x y = js_lt (card_points x) (card_points y)"
    if "x \<in> set g" "y \<in> set g" for x y
    using num that by (simp add: goes_after_points goes_after_sub list_all_iff)
  have "sorted_wrt by_points (array_sort (compare_cards ''points'') g)"
  proof (rule sorted_array_sort [OF ties [unfolded ties_by_id_def]])
    fix x y assume "x \<in> set g" "y \<in> set g" "goes_after (compare_cards ''points'') x y"
    then show "by_points y x" using after by (simp add: by_points_def)
  next
    fix x y
    assume xy: "x \<in> set g" "y \<in> set g"
      and tie: "card_points x = card_points y \<longrightarrow> js_lt (card_id x) (card_id y)"
      and no: "\<not> goes_after (compare_cards ''points'') x y"
    have "card_points x \<noteq> NaN" "card_points y \<noteq> NaN"
      using num xy by (simp_all add: list_all_iff)
    then have "card_points x = card_points y \<or> js_lt (card_points y) (card_points x)"
      using no after [OF xy] js_lt_total [of "card_points x" "card_points y"] by auto
    then show "by_points x y" using tie by (auto simp: by_points_def)
  next
    fix x y z assume "by_points x y" "by_points y z"
    then show "by_points x z" by (rule by_points_trans)
  qed
  then show ?thesis using eq by simp
qed

lemma distinct_map_sorted_wrt: "distinct (map f xs) \<Longrightarrow> sorted_wrt (\<lambda>a b. f a \<noteq> f b) xs"
  by (induction xs) auto

lemma sorted_number_mode:
  assumes m: "m \<noteq> ''points''" "m \<noteq> ''non-zero''"
    and num: "list_all (\<lambda>c. card_id c \<noteq> NaN) g"
    and dist: "distinct (map card_id g)"
  shows "sorted_wrt by_number (array_sort (compare_cards m) g)"
proof -
  have after: "goes_after (compare_cards m) x y = js_lt (card_id y) (card_id x)"
    if "x \<in> set g" "y \<in> set g" for x y
    using num that m by (simp add: goes_after_by_id goes_after_sub list_all_iff)
  show ?thesis
  proof (rule sorted_array_sort [OF distinct_map_sorted_wrt [OF dist]])
    fix x y assume "x \<in> set g" "y \<in> set g" "goes_after (compare_cards m) x y"
    then show "by_number y x" using after by (simp add: by_number_def)
  next
    fix x y
    assume xy: "x \<in> set g" "y \<in> set g" and ne: "card_id x \<noteq> card_id y"
      and no: "\<not> goes_after (compare_cards m) x y"
    have "card_id x \<noteq> NaN" "card_id y \<noteq> NaN"
      using num xy by (simp_all add: list_all_iff)
    then show "by_number x y"
      using no ne after [OF xy] js_lt_total [of "card_id x" "card_id y"]
      by (auto simp: by_number_def)
  next
    fix x y z assume "by_number x y" "by_number y z"
    then show "by_number x z" unfolding by_number_def by (rule js_lt_trans)
  qed
qed

text \<open>Without the ids being distinct the order by id is still ascending.\<close>

lemma ascending_number_mode:
  assumes m: "m \<noteq> ''points''" "m \<noteq> ''non-zero''"
    and num: "list_all (\<lambda>c. card_id c \<noteq> NaN) g"
  shows "sorted_wrt (\<lambda>a b. \<not> js_lt (card_id b) (card_id a)) (array_sort (compare_cards m) g)"
proof -
  have after: "goes_after (compare_cards m) x y = js_lt (card_id y) (card_id x)"
    if "x \<in> set g" "y \<in> set g" for x y
    using num that m by (simp add: goes_after_by_id goes_after_sub list_all_iff)
  have triv: "sorted_wrt (\<lambda>a b. True) g" by simp
  show ?thesis
  proof (rule sorted_array_sort [OF triv])
    fix x y assume "x \<in> set g" "y \<in> set g" "goes_after (compare_cards m) x y"
    then show "\<not> js_lt (card_id x) (card_id y)" using after js_lt_asym by auto
  next
    fix x y
    assume "x \<in> set g" "y \<in> set g" "\<not> goes_after (compare_cards m) x y"
    then show "\<not> js_lt (card_id y) (card_id x)" using after by simp
  next
    fix x y z
    assume xyz: "x \<in> set g" "y \<in> set g" "z \<in> set g"
      and "\<not> js_lt (card_id y) (card_id x)" "\<not> js_lt (card_id z) (card_id y)"
    moreover have "card_id x \<noteq> NaN" "card_id y \<noteq> NaN" "card_id z \<noteq> NaN"
      using num xyz by (simp_all add: list_all_iff)
    ultimately show "\<not> js_lt (card_id z) (card_id x)"
      using js_lt_total [of "card_id x" "card_id y"] js_lt_total [of "card_id y" "card_id z"]
        js_lt_trans [of "card_id x" "card_id y" "card_id z"] js_lt_asym [of "card_id x" "card_id z"]
      by auto
  qed
qed

text \<open>Setting the display changes nothing that the comparator reads.\<close>

lemma card_id_set_display [simp]: "card_id (set_display m c) = card_id c"
  by (simp add: set_display_def card_id_def)

lemma card_points_set_display [simp]: "card_points (set_display m c) = card_points c"
  by (simp add: set_display_def card_points_def)

lemma content_set_display [simp]: "content (set_display m c) = content c"
  by (simp add: set_display_def content_def)

lemma compare_cards_set_display:
  "compare_cards m (set_display m' a) (set_display m' b) = compare_cards m a b"
  by (simp add: compare_cards_def)

lemma set_display_twice: "set_display m (set_display m' c) = set_display m c"
  by (simp add: set_display_def card_points_def)

lemma clusterGrid_sortClusters:
  "clusterGrid (sortClusters m p) = map (set_display m) (array_sort (compare_cards m) (clusterGrid p))"
  by (simp add: sortClusters_def)

lemma mset_content_sortClusters:
  "mset (map content (clusterGrid (sortClusters m p))) = mset (map content (clusterGrid p))"
proof -
  have "map content (clusterGrid (sortClusters m p)) =
        map content (array_sort (compare_cards m) (clusterGrid p))"
    by (simp add: clusterGrid_sortClusters)
  then show ?thesis by (simp add: mset_array_sort)
qed

lemma by_points_ties: "sorted_wrt by_points g \<Longrightarrow> ties_by_id g"
  unfolding ties_by_id_def
  by (erule sorted_wrt_mono_rel [rotated]) (auto simp: by_points_def)

lemma by_number_ties: "sorted_wrt by_number g \<Longrightarrow> ties_by_id g"
  unfolding ties_by_id_def
  by (erule sorted_wrt_mono_rel [rotated]) (simp add: by_number_def)

lemma well_read_array_sort: "well_read g \<Longrightarrow> well_read (array_sort f g)"
proof -
  assume wr: "well_read g"
  have "mset (map card_id (array_sort f g)) = mset (map card_id g)"
    by (simp add: mset_array_sort)
  then have "distinct (map card_id (array_sort f g)) = distinct (map card_id g)"
    by (rule mset_eq_imp_distinct_iff)
  then show ?thesis using wr by (simp add: well_read_def list_all_iff set_array_sort)
qed

lemma ties_by_id_array_sort:
  assumes "well_read g" and "ties_by_id g"
  shows "ties_by_id (array_sort (compare_cards m) g)"
proof (cases "m = ''points'' \<or> m = ''non-zero''")
  case True
  then have "sorted_wrt by_points (array_sort (compare_cards m) g)"
    using assms by (intro sorted_points_mode) (simp_all add: well_read_def list_all_iff)
  then show ?thesis by (rule by_points_ties)
next
  case False
  then have "sorted_wrt by_number (array_sort (compare_cards m) g)"
    using assms by (intro sorted_number_mode) (simp_all add: well_read_def list_all_iff)
  then show ?thesis by (rule by_number_ties)
qed

text \<open>
  On a grid that reads well and has its ties by id, the order that a mode gives does not
  depend on the order the grid was in: sorting after another sort gives what sorting
  at once gives.
\<close>

lemma array_sort_twice:
  assumes wr: "well_read g" and ties: "ties_by_id g"
  shows "array_sort (compare_cards m2) (array_sort (compare_cards m1) g) =
         array_sort (compare_cards m2) g"
proof -
  let ?g1 = "array_sort (compare_cards m1) g"
  have wr1: "well_read ?g1" using wr by (rule well_read_array_sort)
  have ties1: "ties_by_id ?g1" using wr ties by (rule ties_by_id_array_sort)
  have sets: "set (array_sort (compare_cards m2) ?g1) = set (array_sort (compare_cards m2) g)"
    by (simp add: set_array_sort)
  show ?thesis
  proof (cases "m2 = ''points'' \<or> m2 = ''non-zero''")
    case True
    have "sorted_wrt by_points (array_sort (compare_cards m2) ?g1)"
      using True wr1 ties1 by (intro sorted_points_mode) (simp_all add: well_read_def list_all_iff)
    moreover have "sorted_wrt by_points (array_sort (compare_cards m2) g)"
      using True wr ties by (intro sorted_points_mode) (simp_all add: well_read_def list_all_iff)
    ultimately show ?thesis
      using sets by (rule sorted_wrt_unique) (rule by_points_asym)
  next
    case False
    have "sorted_wrt by_number (array_sort (compare_cards m2) ?g1)"
      using False wr1 by (intro sorted_number_mode) (simp_all add: well_read_def list_all_iff)
    moreover have "sorted_wrt by_number (array_sort (compare_cards m2) g)"
      using False wr by (intro sorted_number_mode) (simp_all add: well_read_def list_all_iff)
    ultimately show ?thesis
      using sets by (rule sorted_wrt_unique) (simp add: by_number_def js_lt_asym)
  qed
qed

lemma sortClusters_twice:
  assumes "well_read (clusterGrid p)" and "ties_by_id (clusterGrid p)"
  shows "sortClusters m2 (sortClusters m1 p) = sortClusters m2 p"
proof -
  let ?g = "clusterGrid p"
  have "array_sort (compare_cards m2) (map (set_display m1) (array_sort (compare_cards m1) ?g)) =
        map (set_display m1) (array_sort (compare_cards m2) (array_sort (compare_cards m1) ?g))"
    by (rule array_sort_map) (rule compare_cards_set_display)
  also have "\<dots> = map (set_display m1) (array_sort (compare_cards m2) ?g)"
    using assms by (simp add: array_sort_twice)
  finally have "clusterGrid (sortClusters m2 (sortClusters m1 p)) = clusterGrid (sortClusters m2 p)"
    by (simp add: clusterGrid_sortClusters set_display_twice comp_def)
  then show ?thesis by (simp add: sortClusters_def)
qed

section \<open>Facts about displayResults\<close>

lemma collected_Nil [simp]: "collected data [] = []"
  by (simp add: collected_def map_filter_simps)

lemma collected_Cons:
  "collected data (i # ns) =
     (case entry_of data i of None \<Rightarrow> collected data ns
      | Some s \<Rightarrow> cluster_of data i s # collected data ns)"
  by (simp add: collected_def map_filter_simps split: option.split)

lemma collect_clusters_Inr:
  "collect_clusters data ns acc = Inr cs \<Longrightarrow> cs = acc @ collected data ns"
proof (induction ns arbitrary: acc)
  case Nil
  then show ?case by simp
next
  case (Cons i ns)
  show ?case
  proof (cases "entry_of data i")
    case None
    then have "collect_clusters data (i # ns) acc = collect_clusters data ns acc"
      by (auto simp: entry_of_def Let_def split: option.splits if_splits)
    then have "collect_clusters data ns acc = Inr cs" using Cons.prems by simp
    then have "cs = acc @ collected data ns" by (rule Cons.IH)
    then show ?thesis using None by (simp add: collected_Cons)
  next
    case (Some s)
    then obtain r where r: "results data = Some r" "r (''Cluster '' @ show_nat i) = Some s" "s \<noteq> []"
      by (auto simp: entry_of_def split: option.splits if_splits)
    show ?thesis
    proof (cases "details data")
      case None
      then have "collect_clusters data (i # ns) acc = Inl TypeError"
        using r by (simp add: Let_def)
      then show ?thesis using Cons.prems by simp
    next
      case (Some d)
      then have "collect_clusters data (i # ns) acc =
                 collect_clusters data ns (acc @ [cluster_of data i s])"
        using r by (simp add: Let_def cluster_of_def)
      then have "collect_clusters data ns (acc @ [cluster_of data i s]) = Inr cs"
        using Cons.prems by simp
      then have "cs = (acc @ [cluster_of data i s]) @ collected data ns"
        by (rule Cons.IH)
      then show ?thesis using \<open>entry_of data i = Some s\<close> by (simp add: collected_Cons)
    qed
  qed
qed

lemma collect_clusters_total:
  "details data = Some d \<Longrightarrow> collect_clusters data ns acc = Inr (acc @ collected data ns)"
proof (induction ns arbitrary: acc)
  case Nil
  then show ?case by simp
next
  case (Cons i ns)
  show ?case
  proof (cases "entry_of data i")
    case None
    then have "collect_clusters data (i # ns) acc = collect_clusters data ns acc"
      by (auto simp: entry_of_def Let_def split: option.splits if_splits)
    also have "\<dots> = Inr (acc @ collected data ns)" using Cons.prems by (rule Cons.IH)
    finally show ?thesis using None by (simp add: collected_Cons)
  next
    case (Some s)
    then obtain r where r: "results data = Some r" "r (''Cluster '' @ show_nat i) = Some s" "s \<noteq> []"
      by (auto simp: entry_of_def split: option.splits if_splits)
    then have "collect_clusters data (i # ns) acc =
               collect_clusters data ns (acc @ [cluster_of data i s])"
      using Cons.prems by (simp add: Let_def cluster_of_def)
    also have "\<dots> = Inr ((acc @ [cluster_of data i s]) @ collected data ns)"
      using Cons.prems by (rule Cons.IH)
    finally show ?thesis using Some by (simp add: collected_Cons)
  qed
qed

lemma ids_collected: "map id_c (collected data ns) = filter (\<lambda>i. entry_of data i \<noteq> None) ns"
  by (induction ns) (auto simp: collected_Cons cluster_of_def split: option.splits)

lemma collected_member:
  "i \<in> set ns \<Longrightarrow> entry_of data i = Some s \<Longrightarrow> cluster_of data i s \<in> set (collected data ns)"
  by (induction ns) (auto simp: collected_Cons split: option.splits)

text \<open>
  The array that \<^verbatim>\<open>displayResults\<close> sorts is the closed form of the loop, and so is
  what it has sorted, up to the order.
\<close>

lemma sorted_clusters_Inr:
  assumes "sorted_clusters data = Inr clusters"
  shows "clusters = array_sort (\<lambda>a b. js_sub (points b) (points a)) (collected data [1 ..< 21])"
proof -
  obtain cs where cs: "collect_clusters data [1 ..< 21] [] = Inr cs"
    and sorted: "clusters = array_sort (\<lambda>a b. js_sub (points b) (points a)) cs"
    using assms by (auto simp: sorted_clusters_def split: sum.splits)
  from collect_clusters_Inr [OF cs] sorted show ?thesis by simp
qed

lemma ids_sorted_clusters:
  assumes "sorted_clusters data = Inr clusters"
  shows "distinct (map id_c clusters)" and "set (map id_c clusters) \<subseteq> {1 .. 20}"
proof -
  let ?cs = "collected data [1 ..< 21]"
  have "mset (map id_c clusters) = mset (map id_c ?cs)"
    using sorted_clusters_Inr [OF assms] by (simp add: mset_array_sort)
  then have d: "distinct (map id_c clusters) = distinct (map id_c ?cs)"
    and s: "set (map id_c clusters) = set (map id_c ?cs)"
    by (rule mset_eq_imp_distinct_iff, rule mset_eq_setD)
  show "distinct (map id_c clusters)" using d by (simp add: ids_collected)
  show "set (map id_c clusters) \<subseteq> {1 .. 20}" unfolding s ids_collected by auto
qed

text \<open>
  Where no points are NaN, the array is in descending order of the points, and clusters
  with the same points are in ascending order of their ids: the loop pushed them in that
  order and the sort is stable.
\<close>

lemma order_sorted_clusters:
  assumes "sorted_clusters data = Inr clusters"
    and num: "list_all (\<lambda>c. points c \<noteq> NaN) clusters"
  shows "sorted_wrt (\<lambda>a b. js_lt (points b) (points a) \<or> (points a = points b \<and> id_c a < id_c b))
           clusters"
proof -
  let ?cs = "collected data [1 ..< 21]"
  let ?f = "\<lambda>a b. js_sub (points b) (points a)"
  let ?R = "\<lambda>a b. js_lt (points b) (points a) \<or> (points a = points b \<and> id_c a < id_c b)"
  have eq: "clusters = array_sort ?f ?cs" using assms(1) by (rule sorted_clusters_Inr)
  have num': "points c \<noteq> NaN" if "c \<in> set ?cs" for c
    using num that by (simp add: eq set_array_sort list_all_iff)
  have "sorted_wrt (<) (map id_c ?cs)"
    unfolding ids_collected by (rule sorted_wrt_filter) simp
  then have ties: "sorted_wrt (\<lambda>a b. id_c a < id_c b) ?cs"
    by (simp add: sorted_wrt_map)
  have after: "goes_after ?f x y = js_lt (points x) (points y)"
    if "x \<in> set ?cs" "y \<in> set ?cs" for x y
    using num' that by (simp add: goes_after_def goes_after_sub)
  have "sorted_wrt ?R (array_sort ?f ?cs)"
  proof (rule sorted_array_sort [OF ties])
    fix x y assume "x \<in> set ?cs" "y \<in> set ?cs" "goes_after ?f x y"
    then show "?R y x" using after by simp
  next
    fix x y
    assume xy: "x \<in> set ?cs" "y \<in> set ?cs" and "id_c x < id_c y" "\<not> goes_after ?f x y"
    then show "?R x y"
      using after [OF xy] num' [of x] num' [of y] js_lt_total [of "points x" "points y"] by auto
  next
    fix x y z assume "?R x y" "?R y z"
    then show "?R x z" by (metis js_lt_trans less_trans)
  qed
  then show ?thesis using eq by simp
qed

lemma indexOf_nth: "distinct xs \<Longrightarrow> i < length xs \<Longrightarrow> indexOf xs (xs ! i) = int i"
proof (induction xs arbitrary: i)
  case Nil
  then show ?case by simp
next
  case (Cons x xs)
  show ?case
  proof (cases i)
    case 0
    then show ?thesis by simp
  next
    case (Suc j)
    then have "xs ! j \<in> set xs" using Cons.prems by simp
    then have "x \<noteq> xs ! j" using Cons.prems by auto
    moreover have "indexOf xs (xs ! j) = int j" using Cons Suc by simp
    ultimately show ?thesis using Suc by (simp add: Let_def)
  qed
qed

section \<open>The grid that displayResults renders\<close>

lemma parseInt_show_nat:
  assumes "i \<in> {1 .. 20}"
  shows "parseInt (textContent (show_nat i)) = Fin (of_nat i)"
proof -
  have "\<forall>k \<in> set [Suc 0 ..< 21]. parseInt (textContent (show_nat k)) = Fin (of_nat k)"
    unfolding ids_1_20
    by (simp only: list.set ball_simps) (simp add: textContent_def show_nat.simps parse_defs)
  moreover have "i \<in> set [Suc 0 ..< 21]" using assms by auto
  ultimately show ?thesis by (rule bspec)
qed

lemma card_id_grid_card:
  "id_c c \<in> {1 .. 20} \<Longrightarrow> card_id (grid_card c) = Fin (of_nat (id_c c))"
  by (simp add: card_id_def grid_card_def parseInt_show_nat)

lemma zero_span_points:
  \<open>parseFloat (filter (\<lambda>c. is_digit c \<or> c = CHR ''.'')
       (textContent ''<span class="points-zero">0.000</span>'')) = Fin 0\<close>
  by (simp add: textContent_def parse_defs)

lemma format_NaN:
  \<open>parseFloat s = NaN \<Longrightarrow> formatClusterPoints s = ''<span class="points-zero">0.000</span>''\<close>
  by (simp add: formatClusterPoints_def js_defs)

lemma card_points_NaN:
  assumes "parseFloat (pointsFormatted c) = NaN"
  shows "card_points (grid_card c) = Fin 0"
proof -
  have \<open>cluster_points (grid_card c) = ''<span class="points-zero">0.000</span>''\<close>
    using format_NaN [OF assms] by (simp add: grid_card_def)
  then show ?thesis
    using zero_span_points by (simp add: card_points_def textContent_def is_digit_def)
qed

lemma reads_back_number: "reads_back c \<Longrightarrow> points c \<noteq> NaN"
  using card_points_NaN [of c] by (auto simp: reads_back_def)

text \<open>
  The page that \<^verbatim>\<open>displayResults\<close> renders from strings that read back has a grid
  that reads well, with its ties by id.
\<close>

lemma rendered_grid:
  assumes sc: "sorted_clusters data = Inr clusters" and rb: "list_all reads_back clusters"
  shows "well_read (clusterGrid (render clusters)) \<and> ties_by_id (clusterGrid (render clusters))"
proof -
  have ids: "id_c c \<in> {1 .. 20}" if "c \<in> set clusters" for c
    using ids_sorted_clusters(2) [OF sc] that by auto
  have cid: "card_id (grid_card c) = Fin (of_nat (id_c c))" if "c \<in> set clusters" for c
    using ids that by (simp add: card_id_grid_card)
  have cpt: "card_points (grid_card c) = points c" "points c \<noteq> NaN" if "c \<in> set clusters" for c
    using rb that reads_back_number [of c] by (auto simp: list_all_iff reads_back_def)
  have "map (card_id \<circ> grid_card) clusters = map (\<lambda>c. Fin (of_nat (id_c c))) clusters"
    using cid by simp
  also have "\<dots> = map (\<lambda>n. Fin (of_nat n)) (map id_c clusters)" by simp
  finally have "distinct (map (card_id \<circ> grid_card) clusters)"
    using ids_sorted_clusters(1) [OF sc] by (simp add: distinct_map inj_on_def)
  then have wr: "well_read (map grid_card clusters)"
    using cid cpt by (simp add: well_read_def list_all_iff)
  have num: "list_all (\<lambda>c. points c \<noteq> NaN) clusters"
    using cpt by (simp add: list_all_iff)
  have "sorted_wrt (\<lambda>a b. card_points (grid_card a) = card_points (grid_card b) \<longrightarrow>
          js_lt (card_id (grid_card a)) (card_id (grid_card b))) clusters"
    using order_sorted_clusters [OF sc num]
    by (rule sorted_wrt_mono_rel [rotated]) (auto simp: cid cpt)
  then have "ties_by_id (map grid_card clusters)"
    by (simp add: ties_by_id_def sorted_wrt_map)
  then show ?thesis using wr by (simp add: render_def Let_def)
qed

lemma reads_back_examples:
  "reads_back \<lparr>id_c = 1, name = ''Cluster 1'', points = Fin (65 / 2), pointsFormatted = ''32.500'',
     description = []\<rparr> \<and>
   \<not> reads_back \<lparr>id_c = 1, name = ''Cluster 1'', points = Fin (- 5), pointsFormatted = ''-5.000'',
     description = []\<rparr> \<and>
   \<not> reads_back \<lparr>id_c = 1, name = ''Cluster 1'', points = Fin 10, pointsFormatted = ''1e1'',
     description = []\<rparr> \<and>
   \<not> reads_back \<lparr>id_c = 1, name = ''Cluster 1'', points = NaN, pointsFormatted = ''n/a'',
     description = []\<rparr>"
  by (simp add: reads_back_def page_defs parse_defs js_defs)

text \<open>Every mode of \<^verbatim>\<open>sortClusters\<close> leaves such a grid such a grid.\<close>

lemma sortClusters_keeps:
  assumes "well_read (clusterGrid p)" and "ties_by_id (clusterGrid p)"
  shows "well_read (clusterGrid (sortClusters m p)) \<and> ties_by_id (clusterGrid (sortClusters m p))"
proof -
  let ?g = "array_sort (compare_cards m) (clusterGrid p)"
  have "well_read ?g" using assms(1) by (rule well_read_array_sort)
  moreover have "ties_by_id ?g" using assms by (rule ties_by_id_array_sort)
  ultimately show ?thesis
    by (simp add: clusterGrid_sortClusters well_read_def ties_by_id_def list_all_iff
        sorted_wrt_map comp_def)
qed

lemma rendered_cards:
  assumes sc: "sorted_clusters data = Inr clusters" and rb: "list_all reads_back clusters"
    and c: "c \<in> set clusters"
  shows "card_id (grid_card c) = Fin (of_nat (id_c c)) \<and> card_points (grid_card c) = points c \<and>
         points c \<noteq> NaN"
proof -
  have "id_c c \<in> {1 .. 20}" using ids_sorted_clusters(2) [OF sc] c by auto
  then have "card_id (grid_card c) = Fin (of_nat (id_c c))" by (rule card_id_grid_card)
  moreover have "reads_back c" using rb c by (simp add: list_all_iff)
  ultimately show ?thesis using reads_back_number [of c] by (simp add: reads_back_def)
qed

text \<open>
  That grid is in the order of the mode \<^verbatim>\<open>points\<close> as it is rendered: the cards read
  the ids and the points of the clusters, which \<^verbatim>\<open>displayResults\<close> has sorted.
\<close>

lemma rendered_order:
  assumes sc: "sorted_clusters data = Inr clusters" and rb: "list_all reads_back clusters"
  shows "sorted_wrt by_points (clusterGrid (render clusters))"
proof -
  note cards = rendered_cards [OF sc rb]
  have num: "list_all (\<lambda>c. points c \<noteq> NaN) clusters"
    using cards by (simp add: list_all_iff)
  have "sorted_wrt (\<lambda>a b. by_points (grid_card a) (grid_card b)) clusters"
    using order_sorted_clusters [OF sc num]
    by (rule sorted_wrt_mono_rel [rotated]) (auto simp: by_points_def cards)
  then show ?thesis by (simp add: render_def Let_def sorted_wrt_map)
qed

section \<open>The example pages\<close>

lemma sorted_clusters_example: "sorted_clusters example_data = Inr example_clusters"
  by (simp add: example_data_def example_results_def example_clusters_def page_defs parse_defs
      js_defs)

lemma sorted_clusters_mixed: "sorted_clusters mixed_data = Inr mixed_clusters"
  by (simp add: mixed_data_def mixed_clusters_def page_defs parse_defs js_defs)

lemma mixed_grid_reads:
  "map (\<lambda>c. (card_id c, card_points c)) (clusterGrid (render mixed_clusters)) =
     [(Fin 2, Fin (65 / 2)), (Fin 1, Fin (25 / 2)), (Fin 4, Fin (25 / 2)), (Fin 3, Fin 0)]"
  by (simp add: mixed_clusters_def page_defs parse_defs js_defs)

lemma mixed_reads_back: "list_all reads_back mixed_clusters"
  by (simp add: reads_back_def mixed_clusters_def page_defs parse_defs js_defs)

lemma mixed_grid_ok:
  "well_read (clusterGrid (render mixed_clusters)) \<and> ties_by_id (clusterGrid (render mixed_clusters))"
  using sorted_clusters_mixed mixed_reads_back by (rule rendered_grid)

lemma mixed_by_number:
  "map (\<lambda>c. (cluster_number c, display c)) (clusterGrid (sortClusters ''number'' (render mixed_clusters))) =
     [(''1'', ''block''), (''2'', ''block''), (''3'', ''block''), (''4'', ''block'')]"
  by (simp add: mixed_clusters_def page_defs parse_defs js_defs)

lemma mixed_by_points:
  "map (\<lambda>c. (cluster_number c, display c)) (clusterGrid (sortClusters ''points'' (render mixed_clusters))) =
     [(''2'', ''block''), (''1'', ''block''), (''4'', ''block''), (''3'', ''block'')]"
  by (simp add: mixed_clusters_def page_defs parse_defs js_defs)

lemma mixed_by_non_zero:
  "map (\<lambda>c. (cluster_number c, display c)) (clusterGrid (sortClusters ''non-zero'' (render mixed_clusters))) =
     [(''2'', ''block''), (''1'', ''block''), (''4'', ''block''), (''3'', ''none'')]"
  by (simp add: mixed_clusters_def page_defs parse_defs js_defs)

section \<open>sortClusters: the sort modes\<close>

lemma by_points_set_display [simp]: "by_points (set_display m a) (set_display m' b) = by_points a b"
  by (simp add: by_points_def)

lemma by_number_set_display [simp]: "by_number (set_display m a) (set_display m' b) = by_number a b"
  by (simp add: by_number_def)

text \<open>
  C10. A sort type that is none of \<^verbatim>\<open>number\<close>, \<^verbatim>\<open>points\<close> and \<^verbatim>\<open>non-zero\<close> takes the
  default branch of the comparator: the page is the one that \<^verbatim>\<open>number\<close> gives. On a
  grid whose ids read as numbers the cards end in ascending order of their ids; every card
  is set to display \<^verbatim>\<open>block\<close>, and the cards are those of the grid before.
\<close>

theorem sortClusters_other_mode:
  assumes "sortType \<notin> {''number'', ''points'', ''non-zero''}"
    and "list_all (\<lambda>c. card_id c \<noteq> NaN) (clusterGrid p)"
  shows "sortClusters sortType p = sortClusters ''number'' p \<and>
         sorted_wrt (\<lambda>a b. \<not> js_lt (card_id b) (card_id a)) (clusterGrid (sortClusters sortType p)) \<and>
         list_all (\<lambda>c. display c = ''block'') (clusterGrid (sortClusters sortType p)) \<and>
         mset (map content (clusterGrid (sortClusters sortType p))) =
           mset (map content (clusterGrid p))"
proof -
  have m: "sortType \<noteq> ''number''" "sortType \<noteq> ''points''" "sortType \<noteq> ''non-zero''"
    using assms(1) by auto
  have "compare_cards sortType = compare_cards ''number''"
    using m by (simp add: compare_cards_def fun_eq_iff)
  moreover have "set_display sortType = set_display ''number''"
    using m by (simp add: set_display_def fun_eq_iff)
  ultimately have same: "sortClusters sortType p = sortClusters ''number'' p"
    by (simp add: sortClusters_def)
  have "sorted_wrt (\<lambda>a b. \<not> js_lt (card_id b) (card_id a))
          (array_sort (compare_cards sortType) (clusterGrid p))"
    using m(2,3) assms(2) by (rule ascending_number_mode)
  then have asc: "sorted_wrt (\<lambda>a b. \<not> js_lt (card_id b) (card_id a))
          (clusterGrid (sortClusters sortType p))"
    by (simp add: clusterGrid_sortClusters sorted_wrt_map)
  have shown: "list_all (\<lambda>c. display c = ''block'') (clusterGrid (sortClusters sortType p))"
    using m by (simp add: clusterGrid_sortClusters list_all_iff set_display_def)
  show ?thesis using same asc shown mset_content_sortClusters by simp
qed

theorem sortClusters_other_mode_witness:
  "''name'' \<notin> {''number'', ''points'', ''non-zero''} \<and>
   list_all (\<lambda>c. card_id c \<noteq> NaN) (clusterGrid (render mixed_clusters)) \<and>
   map cluster_number (clusterGrid (render mixed_clusters)) = [''2'', ''1'', ''4'', ''3''] \<and>
   map (\<lambda>c. (cluster_number c, display c)) (clusterGrid (sortClusters ''name'' (render mixed_clusters))) =
     [(''1'', ''block''), (''2'', ''block''), (''3'', ''block''), (''4'', ''block'')]"
proof -
  have m: "''name'' \<notin> {''number'', ''points'', ''non-zero''}" by simp
  have ids: "list_all (\<lambda>c. card_id c \<noteq> NaN) (clusterGrid (render mixed_clusters))"
    using mixed_grid_ok by (simp add: well_read_def list_all_iff)
  have start: "map cluster_number (clusterGrid (render mixed_clusters)) = [''2'', ''1'', ''4'', ''3'']"
    by (simp add: mixed_clusters_def render_def grid_card_def show_nat.simps)
  from sortClusters_other_mode [OF m ids]
  have "sortClusters ''name'' (render mixed_clusters) = sortClusters ''number'' (render mixed_clusters)"
    by simp
  then show ?thesis using m ids start mixed_by_number by simp
qed

text \<open>The mode \<^verbatim>\<open>points\<close> leaves a grid that is in its order in that order.\<close>

lemma points_mode_fixed:
  assumes sorted: "sorted_wrt by_points g" and num: "list_all (\<lambda>c. card_points c \<noteq> NaN) g"
  shows "array_sort (compare_cards ''points'') g = g"
proof -
  have "ties_by_id g" using sorted by (rule by_points_ties)
  then have "sorted_wrt by_points (array_sort (compare_cards ''points'') g)"
    using num by (intro sorted_points_mode) simp_all
  then show ?thesis
    using sorted by (rule sorted_wrt_unique) (simp add: set_array_sort, rule by_points_asym)
qed

text \<open>
  On a grid that reads well with its ties by id, the order that the mode \<^verbatim>\<open>points\<close>
  gives is non-increasing in the points, with ties in ascending id.
\<close>

lemma points_mode_order:
  assumes "list_all (\<lambda>c. card_points c \<noteq> NaN) (clusterGrid p)"
    and "ties_by_id (clusterGrid p)"
  shows "sorted_wrt (\<lambda>a b. \<not> js_lt (card_points a) (card_points b))
           (clusterGrid (sortClusters ''points'' p)) \<and>
         sorted_wrt (\<lambda>a b. card_points a = card_points b \<longrightarrow> js_lt (card_id a) (card_id b))
           (clusterGrid (sortClusters ''points'' p))"
proof -
  have "sorted_wrt by_points (array_sort (compare_cards ''points'') (clusterGrid p))"
    using assms by (intro sorted_points_mode) simp_all
  then have s: "sorted_wrt by_points (clusterGrid (sortClusters ''points'' p))"
    by (simp add: clusterGrid_sortClusters sorted_wrt_map by_points_set_display)
  have "sorted_wrt (\<lambda>a b. \<not> js_lt (card_points a) (card_points b))
          (clusterGrid (sortClusters ''points'' p))"
    using s by (rule sorted_wrt_mono_rel [rotated]) (auto simp: by_points_def dest: js_lt_asym)
  moreover have "sorted_wrt (\<lambda>a b. card_points a = card_points b \<longrightarrow> js_lt (card_id a) (card_id b))
          (clusterGrid (sortClusters ''points'' p))"
    using s by (rule sorted_wrt_mono_rel [rotated]) (auto simp: by_points_def)
  ultimately show ?thesis by simp
qed

text \<open>
  Any modes in a row leave such a grid such a grid, and do not show in what the mode
  \<^verbatim>\<open>points\<close> gives after them.
\<close>

lemma modes_keep:
  assumes "well_read (clusterGrid p)" and "ties_by_id (clusterGrid p)"
  shows "well_read (clusterGrid (foldr sortClusters ms p)) \<and>
         ties_by_id (clusterGrid (foldr sortClusters ms p))"
proof (induction ms)
  case Nil
  show ?case using assms by simp
next
  case (Cons m ms)
  then show ?case using sortClusters_keeps [of "foldr sortClusters ms p" m] by simp
qed

lemma points_after_modes:
  assumes "well_read (clusterGrid p)" and "ties_by_id (clusterGrid p)"
  shows "sortClusters ''points'' (foldr sortClusters ms p) = sortClusters ''points'' p"
proof (induction ms)
  case Nil
  show ?case by simp
next
  case (Cons m ms)
  have "sortClusters ''points'' (sortClusters m (foldr sortClusters ms p)) =
        sortClusters ''points'' (foldr sortClusters ms p)"
    using modes_keep [OF assms, of ms] by (intro sortClusters_twice) simp_all
  then show ?case using Cons by simp
qed



text \<open>
  C5. The mode \<^verbatim>\<open>non-zero\<close> puts the cards in the order that the mode \<^verbatim>\<open>points\<close> puts
  them in; where the grid reads well with its ties by id, that is descending points with
  ties in ascending id. A card is hidden (display \<^verbatim>\<open>none\<close>) exactly when its points are
  0 and shown (display \<^verbatim>\<open>block\<close>) otherwise. No card is removed: the grid holds the
  cards it held, the hidden ones at their place in the order, and any other mode shows
  them all again. The points of a card are those of its cluster when the formatted string
  reads back.
\<close>

theorem sortClusters_non_zero:
  "map content (clusterGrid (sortClusters ''non-zero'' p)) =
     map content (clusterGrid (sortClusters ''points'' p)) \<and>
   list_all (\<lambda>c. display c = (if js_eq (card_points c) (Fin 0) then ''none'' else ''block''))
     (clusterGrid (sortClusters ''non-zero'' p)) \<and>
   mset (map content (clusterGrid (sortClusters ''non-zero'' p))) =
     mset (map content (clusterGrid p)) \<and>
   (list_all (\<lambda>c. card_points c \<noteq> NaN) (clusterGrid p) \<and> ties_by_id (clusterGrid p) \<longrightarrow>
      sorted_wrt by_points (clusterGrid (sortClusters ''non-zero'' p))) \<and>
   (\<forall>m. m \<noteq> ''non-zero'' \<longrightarrow>
      list_all (\<lambda>c. display c = ''block'')
        (clusterGrid (sortClusters m (sortClusters ''non-zero'' p))))"
proof -
  have order: "map content (clusterGrid (sortClusters ''non-zero'' p)) =
      map content (clusterGrid (sortClusters ''points'' p))"
    by (simp add: clusterGrid_sortClusters array_sort_non_zero)
  have shown: "list_all (\<lambda>c. display c = (if js_eq (card_points c) (Fin 0) then ''none'' else ''block''))
      (clusterGrid (sortClusters ''non-zero'' p))"
    by (simp add: clusterGrid_sortClusters list_all_iff set_display_def card_points_def)
  have sorted: "sorted_wrt by_points (clusterGrid (sortClusters ''non-zero'' p))"
    if "list_all (\<lambda>c. card_points c \<noteq> NaN) (clusterGrid p)" "ties_by_id (clusterGrid p)"
  proof -
    have "sorted_wrt by_points (array_sort (compare_cards ''non-zero'') (clusterGrid p))"
      using that by (intro sorted_points_mode) simp_all
    then show ?thesis by (simp add: clusterGrid_sortClusters sorted_wrt_map)
  qed
  have again: "list_all (\<lambda>c. display c = ''block'')
      (clusterGrid (sortClusters m (sortClusters ''non-zero'' p)))" if "m \<noteq> ''non-zero''" for m
    using that by (simp add: clusterGrid_sortClusters [of m] list_all_iff set_display_def)
  show ?thesis using order shown sorted again mset_content_sortClusters by blast
qed

theorem sortClusters_non_zero_witness:
  "list_all (\<lambda>c. card_points c \<noteq> NaN) (clusterGrid (render mixed_clusters)) \<and>
   ties_by_id (clusterGrid (render mixed_clusters)) \<and>
   sorted_wrt by_points (clusterGrid (sortClusters ''non-zero'' (render mixed_clusters))) \<and>
   map (\<lambda>c. (cluster_number c, display c))
     (clusterGrid (sortClusters ''non-zero'' (render mixed_clusters))) =
     [(''2'', ''block''), (''1'', ''block''), (''4'', ''block''), (''3'', ''none'')] \<and>
   ''number'' \<noteq> ''non-zero'' \<and>
   list_all (\<lambda>c. display c = ''block'')
     (clusterGrid (sortClusters ''number'' (sortClusters ''non-zero'' (render mixed_clusters))))"
proof -
  let ?p = "render mixed_clusters"
  have num: "list_all (\<lambda>c. card_points c \<noteq> NaN) (clusterGrid ?p)"
    using mixed_grid_ok by (simp add: well_read_def list_all_iff)
  have ties: "ties_by_id (clusterGrid ?p)" using mixed_grid_ok by simp
  have m: "''number'' \<noteq> ''non-zero''" by simp
  note t = sortClusters_non_zero [of ?p]
  have "sorted_wrt by_points (clusterGrid (sortClusters ''non-zero'' ?p))"
    using t [THEN conjunct2, THEN conjunct2, THEN conjunct2, THEN conjunct1] num ties
    by (rule_tac mp) (assumption, rule conjI)
  moreover have "list_all (\<lambda>c. display c = ''block'')
      (clusterGrid (sortClusters ''number'' (sortClusters ''non-zero'' ?p)))"
    using t [THEN conjunct2, THEN conjunct2, THEN conjunct2, THEN conjunct2, THEN spec, THEN mp, OF m] .
  ultimately have "sorted_wrt by_points (clusterGrid (sortClusters ''non-zero'' ?p)) \<and>
      list_all (\<lambda>c. display c = ''block'')
        (clusterGrid (sortClusters ''number'' (sortClusters ''non-zero'' ?p)))" ..
  then show ?thesis using num ties m mixed_by_non_zero by (intro conjI) (elim conjE, assumption)+
qed

text \<open>
  C7, as the code has it. On a grid that reads well with its ties by id, as
  \<^verbatim>\<open>displayResults\<close> renders it from strings that read back, sorting by one mode and then
  by another gives the page that the second mode gives at once. Each call replaces the
  order of the grid and the display of every card; it leaves the content of the cards,
  the top section and the displays of the sections as they were, and the grid still reads
  well with its ties by id.
\<close>

theorem sortClusters_mode_switch:
  assumes "well_read (clusterGrid p)" and "ties_by_id (clusterGrid p)"
  shows "sortClusters m2 (sortClusters m1 p) = sortClusters m2 p \<and>
         mset (map content (clusterGrid (sortClusters m1 p))) = mset (map content (clusterGrid p)) \<and>
         topClustersGrid (sortClusters m1 p) = topClustersGrid p \<and>
         topClustersSection_display (sortClusters m1 p) = topClustersSection_display p \<and>
         resultsSection_display (sortClusters m1 p) = resultsSection_display p \<and>
         well_read (clusterGrid (sortClusters m1 p)) \<and> ties_by_id (clusterGrid (sortClusters m1 p))"
proof -
  have "sortClusters m2 (sortClusters m1 p) = sortClusters m2 p"
    using assms by (rule sortClusters_twice)
  moreover have "well_read (clusterGrid (sortClusters m1 p)) \<and> ties_by_id (clusterGrid (sortClusters m1 p))"
    using assms by (rule sortClusters_keeps)
  moreover have "topClustersGrid (sortClusters m1 p) = topClustersGrid p"
    "topClustersSection_display (sortClusters m1 p) = topClustersSection_display p"
    "resultsSection_display (sortClusters m1 p) = resultsSection_display p"
    by (simp_all add: sortClusters_def)
  ultimately show ?thesis using mset_content_sortClusters by simp
qed

theorem sortClusters_mode_switch_witness:
  "well_read (clusterGrid (render mixed_clusters)) \<and>
   ties_by_id (clusterGrid (render mixed_clusters)) \<and>
   sortClusters ''points'' (sortClusters ''number'' (render mixed_clusters)) =
     sortClusters ''points'' (render mixed_clusters) \<and>
   map cluster_number (clusterGrid (sortClusters ''number'' (render mixed_clusters))) =
     [''1'', ''2'', ''3'', ''4''] \<and>
   map cluster_number (clusterGrid (sortClusters ''points'' (sortClusters ''number'' (render mixed_clusters)))) =
     [''2'', ''1'', ''4'', ''3'']"
proof -
  let ?p = "render mixed_clusters"
  have wr: "well_read (clusterGrid ?p)" and ties: "ties_by_id (clusterGrid ?p)"
    using mixed_grid_ok by simp_all
  from sortClusters_mode_switch [OF wr ties, of "''points''" "''number''"]
  have switch: "sortClusters ''points'' (sortClusters ''number'' ?p) = sortClusters ''points'' ?p"
    by simp
  have "map cluster_number (clusterGrid (sortClusters ''number'' ?p)) =
        map fst (map (\<lambda>c. (cluster_number c, display c)) (clusterGrid (sortClusters ''number'' ?p)))"
    by (simp add: comp_def)
  then have n: "map cluster_number (clusterGrid (sortClusters ''number'' ?p)) = [''1'', ''2'', ''3'', ''4'']"
    unfolding mixed_by_number by simp
  have "map cluster_number (clusterGrid (sortClusters ''points'' ?p)) =
        map fst (map (\<lambda>c. (cluster_number c, display c)) (clusterGrid (sortClusters ''points'' ?p)))"
    by (simp add: comp_def)
  then have "map cluster_number (clusterGrid (sortClusters ''points'' ?p)) = [''2'', ''1'', ''4'', ''3'']"
    unfolding mixed_by_points by simp
  then show ?thesis using wr ties switch n by simp
qed

text \<open>
  A call does change the grid it is given: the order of the cards, and the display of each
  card, which is empty as rendered.
\<close>

theorem sortClusters_mutates_counterexample:
  "map (\<lambda>c. (cluster_number c, display c)) (clusterGrid (render mixed_clusters)) =
     [(''2'', []), (''1'', []), (''4'', []), (''3'', [])] \<and>
   map (\<lambda>c. (cluster_number c, display c)) (clusterGrid (sortClusters ''number'' (render mixed_clusters))) =
     [(''1'', ''block''), (''2'', ''block''), (''3'', ''block''), (''4'', ''block'')] \<and>
   clusterGrid (sortClusters ''number'' (render mixed_clusters)) \<noteq> clusterGrid (render mixed_clusters)"
proof -
  have a: "map (\<lambda>c. (cluster_number c, display c)) (clusterGrid (render mixed_clusters)) =
     [(''2'', []), (''1'', []), (''4'', []), (''3'', [])]"
    by (simp add: mixed_clusters_def render_def grid_card_def show_nat.simps)
  have "map (\<lambda>c. (cluster_number c, display c)) (clusterGrid (sortClusters ''number'' (render mixed_clusters))) \<noteq>
        map (\<lambda>c. (cluster_number c, display c)) (clusterGrid (render mixed_clusters))"
    unfolding a mixed_by_number by simp
  then have "clusterGrid (sortClusters ''number'' (render mixed_clusters)) \<noteq> clusterGrid (render mixed_clusters)"
    by auto
  then show ?thesis using a mixed_by_number by simp
qed

section \<open>displayResults: the clusters and the top section\<close>

lemma distinct_sorted_clusters: "sorted_clusters data = Inr clusters \<Longrightarrow> distinct clusters"
  using ids_sorted_clusters(1) [of data clusters] by (simp add: distinct_map)

lemma top_feet:
  assumes "distinct clusters"
  shows "map (\<lambda>c. indexOf clusters c + 1) (take 3 clusters) =
         map (\<lambda>k. int k + 1) [0 ..< min 3 (length clusters)]"
proof (rule nth_equalityI)
  show "length (map (\<lambda>c. indexOf clusters c + 1) (take 3 clusters)) =
        length (map (\<lambda>k. int k + 1) [0 ..< min 3 (length clusters)])"
    by (simp add: min.commute)
next
  fix i assume "i < length (map (\<lambda>c. indexOf clusters c + 1) (take 3 clusters))"
  then have i: "i < 3" "i < length clusters" by simp_all
  then have "indexOf clusters (take 3 clusters ! i) = int i"
    using assms by (simp add: indexOf_nth)
  then show "map (\<lambda>c. indexOf clusters c + 1) (take 3 clusters) ! i =
      map (\<lambda>k. int k + 1) [0 ..< min 3 (length clusters)] ! i"
    using i by simp
qed

text \<open>
  C3. The top section holds at most three cards: those of the first clusters of the
  array that \<^verbatim>\<open>displayResults\<close> sorted itself, each with its position in that array,
  counted from 1, as its rank. Where no points are NaN that array is in descending order
  of the points, with ties in ascending order of the ids. \<^verbatim>\<open>sortClusters\<close> with any
  mode, once or twice, leaves the top section as it is; and \<^verbatim>\<open>displayResults\<close> builds
  it from the response alone, whatever mode the grid was sorted by before.
\<close>

theorem top_clusters:
  assumes "sorted_clusters data = Inr clusters"
  shows "displayResults data = Inr (render clusters) \<and>
         length (topClustersGrid (render clusters)) \<le> 3 \<and>
         map onclick (topClustersGrid (render clusters)) = map id_c (take 3 clusters) \<and>
         map foot (topClustersGrid (render clusters)) =
           map (\<lambda>k. TopBadge (int k + 1)) [0 ..< min 3 (length clusters)] \<and>
         (list_all (\<lambda>c. points c \<noteq> NaN) clusters \<longrightarrow>
            sorted_wrt (\<lambda>a b. js_lt (points b) (points a) \<or> (points a = points b \<and> id_c a < id_c b))
              clusters) \<and>
         (\<forall>m. topClustersGrid (sortClusters m (render clusters)) = topClustersGrid (render clusters)) \<and>
         (\<forall>m1 m2. topClustersGrid (sortClusters m2 (sortClusters m1 (render clusters))) =
            topClustersGrid (render clusters))"
proof -
  have shown: "displayResults data = Inr (render clusters)"
    using assms by (simp add: displayResults_def)
  have top: "topClustersGrid (render clusters) = map (top_card clusters) (take 3 clusters)"
    by (simp add: render_def Let_def)
  have len: "length (topClustersGrid (render clusters)) \<le> 3"
    by (simp add: top)
  have who: "map onclick (topClustersGrid (render clusters)) = map id_c (take 3 clusters)"
    by (simp add: top top_card_def)
  have "map foot (topClustersGrid (render clusters)) =
        map TopBadge (map (\<lambda>c. indexOf clusters c + 1) (take 3 clusters))"
    by (simp add: top top_card_def)
  also have "\<dots> = map TopBadge (map (\<lambda>k. int k + 1) [0 ..< min 3 (length clusters)])"
    using distinct_sorted_clusters [OF assms] by (simp only: top_feet)
  finally have ranks: "map foot (topClustersGrid (render clusters)) =
      map (\<lambda>k. TopBadge (int k + 1)) [0 ..< min 3 (length clusters)]"
    by (simp add: comp_def)
  have order: "sorted_wrt (\<lambda>a b. js_lt (points b) (points a) \<or> (points a = points b \<and> id_c a < id_c b))
      clusters" if "list_all (\<lambda>c. points c \<noteq> NaN) clusters"
    using assms that by (rule order_sorted_clusters)
  have kept: "topClustersGrid (sortClusters m p) = topClustersGrid p" for m p
    by (simp add: sortClusters_def)
  show ?thesis using shown len who ranks order kept by simp
qed

theorem top_clusters_witness:
  "sorted_clusters mixed_data = Inr mixed_clusters \<and>
   displayResults mixed_data = Inr (render mixed_clusters) \<and>
   map id_c (take 3 mixed_clusters) = [2, 1, 4] \<and>
   map (\<lambda>c. (onclick c, foot c)) (topClustersGrid (render mixed_clusters)) =
     [(2, TopBadge 1), (1, TopBadge 2), (4, TopBadge 3)] \<and>
   topClustersGrid (sortClusters ''number'' (render mixed_clusters)) =
     topClustersGrid (render mixed_clusters)"
proof -
  note t = top_clusters [OF sorted_clusters_mixed]
  have shown: "displayResults mixed_data = Inr (render mixed_clusters)"
    using t by (rule conjunct1)
  have kept: "topClustersGrid (sortClusters ''number'' (render mixed_clusters)) =
      topClustersGrid (render mixed_clusters)"
    using t by simp
  have ids: "map id_c (take 3 mixed_clusters) = [2, 1, 4]"
    by (simp add: mixed_clusters_def)
  have cards: "map (\<lambda>c. (onclick c, foot c)) (topClustersGrid (render mixed_clusters)) =
     [(2, TopBadge 1), (1, TopBadge 2), (4, TopBadge 3)]"
    by (simp add: mixed_clusters_def render_def top_card_def)
  show ?thesis using sorted_clusters_mixed shown kept ids cards by simp
qed

section \<open>The scenario of the specification\<close>

text \<open>
  C2 fails on the code: for the results of the scenario the top section holds three
  cards, and the third is that of cluster 3, whose points are zero.
\<close>

theorem scenario_top_counterexample:
  \<open>displayResults example_data = Inr (render example_clusters) \<and>
    length (topClustersGrid (render example_clusters)) = 3 \<and>
    cluster_number (topClustersGrid (render example_clusters) ! 2) = ''3'' \<and>
    cluster_points (topClustersGrid (render example_clusters) ! 2) =
      ''<span class="points-zero">0.000</span>''\<close>
  using sorted_clusters_example
  by (simp add: displayResults_def example_clusters_def render_def top_card_def show_nat.simps
      formatClusterPoints_def parse_defs js_defs)

text \<open>
  C2, as the code has it: the top section holds the cards of clusters 1, 2 and 3 with the
  ranks 1, 2 and 3, the first two in the high tier and the third in the zero tier, and
  the section is shown.
\<close>

theorem scenario_top:
  \<open>displayResults example_data = Inr (render example_clusters) \<and>
    map (\<lambda>c. (cluster_number c, cluster_points c, foot c, className c))
      (topClustersGrid (render example_clusters)) =
      [(''1'', ''<span class="points-high">32.500</span>'', TopBadge 1, ''cluster-card highlight''),
       (''2'', ''<span class="points-high">32.500</span>'', TopBadge 2, ''cluster-card highlight''),
       (''3'', ''<span class="points-zero">0.000</span>'', TopBadge 3, ''cluster-card highlight'')] \<and>
    topClustersSection_display (render example_clusters) = ''block''\<close>
  using sorted_clusters_example
  by (simp add: displayResults_def example_clusters_def render_def top_card_def show_nat.simps
      formatClusterPoints_def parse_defs js_defs)

section \<open>Strings that are not numbers\<close>

text \<open>
  C6 fails on the code: the entry whose string is not a number is pushed with the points
  NaN, and \<^verbatim>\<open>displayResults\<close> returns the page with no error.
\<close>

theorem unparseable_counterexample:
  "sorted_clusters unparseable_data =
     Inr [\<lparr>id_c = 1, name = ''Cluster 1'', points = NaN, pointsFormatted = ''abc'',
           description = []\<rparr>,
          \<lparr>id_c = 2, name = ''Cluster 2'', points = Fin 20, pointsFormatted = ''20.000'',
           description = []\<rparr>]"
  by (simp add: unparseable_data_def page_defs parse_defs js_defs)

text \<open>
  C6, as the code has it. When the response has its details, an entry for one of the
  ids 1 to 20 whose string is not empty and is not a number is kept: the clusters hold it
  with its string and the points NaN, its card shows the zero tier, and
  \<^verbatim>\<open>displayResults\<close> returns the page, with no error.
\<close>

theorem unparseable_entry_kept:
  assumes "results data = Some r" and "details data = Some d" and "i \<in> {1 .. 20}"
    and "r (''Cluster '' @ show_nat i) = Some s" and "s \<noteq> []" and "parseFloat s = NaN"
  shows \<open>\<exists>clusters. sorted_clusters data = Inr clusters \<and>
           displayResults data = Inr (render clusters) \<and>
           (\<exists>c \<in> set clusters. id_c c = i \<and> pointsFormatted c = s \<and> points c = NaN \<and>
              cluster_points (grid_card c) = ''<span class="points-zero">0.000</span>'')\<close>
proof -
  let ?cs = "array_sort (\<lambda>a b. js_sub (points b) (points a)) (collected data [1 ..< 21])"
  have sc: "sorted_clusters data = Inr ?cs"
    using collect_clusters_total [OF assms(2), of "[1 ..< 21]" "[]"]
    by (simp add: sorted_clusters_def)
  then have shown: "displayResults data = Inr (render ?cs)"
    by (simp add: displayResults_def)
  have "entry_of data i = Some s"
    using assms by (simp add: entry_of_def)
  moreover have "i \<in> set [1 ..< 21]" using assms(3) by auto
  ultimately have mem: "cluster_of data i s \<in> set ?cs"
    by (simp only: set_array_sort collected_member)
  have "id_c (cluster_of data i s) = i" "pointsFormatted (cluster_of data i s) = s"
    "points (cluster_of data i s) = NaN"
    using assms(6) by (simp_all add: cluster_of_def)
  moreover have \<open>cluster_points (grid_card (cluster_of data i s)) =
      ''<span class="points-zero">0.000</span>''\<close>
    using format_NaN [OF assms(6)] by (simp add: grid_card_def cluster_of_def)
  ultimately show ?thesis using sc shown mem by blast
qed

theorem unparseable_entry_kept_witness:
  \<open>results unparseable_data = Some [''Cluster 1'' \<mapsto> ''abc'', ''Cluster 2'' \<mapsto> ''20.000''] \<and>
    details unparseable_data = Some Map.empty \<and> parseFloat ''abc'' = NaN \<and>
    (\<exists>clusters. sorted_clusters unparseable_data = Inr clusters \<and>
       displayResults unparseable_data = Inr (render clusters) \<and>
       (\<exists>c \<in> set clusters. id_c c = 1 \<and> pointsFormatted c = ''abc'' \<and> points c = NaN \<and>
          cluster_points (grid_card c) = ''<span class="points-zero">0.000</span>''))\<close>
proof -
  have r: "results unparseable_data = Some [''Cluster 1'' \<mapsto> ''abc'', ''Cluster 2'' \<mapsto> ''20.000'']"
    and d: "details unparseable_data = Some Map.empty"
    by (simp_all add: unparseable_data_def)
  have i: "(1::nat) \<in> {1 .. 20}" by simp
  have e: "[''Cluster 1'' \<mapsto> ''abc'', ''Cluster 2'' \<mapsto> ''20.000''] (''Cluster '' @ show_nat 1) = Some ''abc''"
    by (simp add: show_nat.simps)
  have s: "''abc'' \<noteq> []" by simp
  have n: "parseFloat ''abc'' = NaN" by (simp add: parse_defs)
  show ?thesis using unparseable_entry_kept [OF r d i e s n] r d n by simp
qed

section \<open>showClusterDetails: the total\<close>

lemma forEach_subject_eq:
  "forEach_subject ops subs (html, t) =
     (html @ concat (map (subject_item ops) subs), foldl (num_add ops) t (map points_s subs))"
  by (induction subs arbitrary: html t) simp_all

text \<open>
  What the function is written to do. On a page where a global \<^verbatim>\<open>html\<close> holds a
  string, a sequence of subjects that is not empty is shown as that string, the heading,
  the items of the subjects in their order, and the line of the total: the Numbers of the
  subjects added from 0 in their order, printed over 48.
\<close>

lemma showClusterDetails_with_html:
  assumes "subs \<noteq> []"
  shows
    \<open>showClusterDetails ops (Some html) clusterId clusterName pts (Some subs) =
       Inr \<lparr>modalTitle = clusterName @ '' Details'',
            modalContent =
              html @ ''<h6 class="mb-3"><i class="fas fa-book"></i> Subjects Used:</h6>'' @
              [CHR 0x0A] @ ''        <div class="subject-details">'' @
              concat (map (subject_item ops) subs) @
              ''</div>'' @ [CHR 0x0A] @
              ''        <div class="mt-3 p-3 bg-light rounded">'' @ [CHR 0x0A] @
              ''            <strong>Total Cluster Points (x):</strong> '' @
              num_toString ops (foldl (num_add ops) (num_zero ops) (map points_s subs)) @
              '' / 48'' @ [CHR 0x0A] @
              ''        </div>'',
            shown = True\<rparr>\<close>
proof -
  have "0 < length subs" using assms by simp
  then show ?thesis by (simp add: showClusterDetails_def forEach_subject_eq)
qed

text \<open>
  C8 says that the details of a cluster show the total of the points of its subjects over
  48, with a badge for each subject. The code does not get that far. script.js declares
  the variable \<^verbatim>\<open>html\<close> nowhere, so on the page as the script leaves it the call raises
  a ReferenceError for every cluster and every sequence of subjects, empty or not, whatever
  the arithmetic of the engine: no item, no total and no denominator are shown.
\<close>

theorem showClusterDetails_raises:
  "showClusterDetails ops None clusterId clusterName pts subjectsUsed = Inl ReferenceError"
  by (simp add: showClusterDetails_def)

end
